theory Spec2Isabelle
  imports Complex_Main "HOL-Library.AList"
begin

section \<open>JavaScript values\<close>

text \<open>
  Request bodies reach the handlers after \<open>express.json()\<close> has parsed them, and the
  payload of a token after \<open>jwt.verify\<close> has parsed it. A parsed value is modelled
  as a tree; \<open>JUndefined\<close> is what reading an absent property gives. A number is
  carried by the numeral of the text; what the program holds is the binary64 number
  nearest to it (\<open>round64\<close> below), so two numerals are one number to the program when
  they round alike.
\<close>

datatype json =
    JUndefined
  | JNull
  | JBool bool
  | JNum rat
  | JStr string
  | JArr "json list"
  | JObj "(string \<times> json) list"

datatype error = TypeError | IllegalArguments

fun is_primitive :: "json \<Rightarrow> bool" where
  "is_primitive (JArr xs) = False"
| "is_primitive (JObj kvs) = False"
| "is_primitive v = True"

text \<open>
  \<open>v.k\<close> for the property names this program reads (none of them is defined on a
  built-in prototype): a \<open>TypeError\<close> on \<open>undefined\<close> and \<open>null\<close>, the member of an
  object, \<open>undefined\<close> otherwise.
\<close>

fun get_prop :: "json \<Rightarrow> string \<Rightarrow> error + json" where
  "get_prop JUndefined k = Inl TypeError"
| "get_prop JNull k = Inl TypeError"
| "get_prop (JObj kvs) k = Inr (case map_of kvs k of Some v \<Rightarrow> v | None \<Rightarrow> JUndefined)"
| "get_prop v k = Inr JUndefined"

definition bind_err :: "error + 'a \<Rightarrow> ('a \<Rightarrow> error + 'b) \<Rightarrow> error + 'b" where
  "bind_err m f = (case m of Inl e \<Rightarrow> Inl e | Inr x \<Rightarrow> f x)"

subsection \<open>Numbers: binary64, round to nearest, ties to even\<close>

text \<open>
  A JavaScript number is an IEEE 754 binary64 value. A finite one is carried by the
  rational it denotes; the sign of zero is not kept (nothing in this program observes it).
\<close>

datatype num = Finite rat | PosInf | NegInf | NaN

definition pow2 :: "int \<Rightarrow> rat" where
  "pow2 e = (if 0 \<le> e then 2 ^ nat e else 1 / 2 ^ nat (- e))"

text \<open>The number of binary digits of a positive integer.\<close>

function bits :: "int \<Rightarrow> nat" where
  "bits n = (if n \<le> 0 then 0 else Suc (bits (n div 2)))"
  by pat_completeness auto
termination
  by (relation "measure nat") auto

declare bits.simps [simp del]

text \<open>For \<open>x > 0\<close>, the exponent \<open>e\<close> with \<open>2 ^ e \<le> x < 2 ^ (e + 1)\<close>.\<close>

definition ilog2 :: "rat \<Rightarrow> int" where
  "ilog2 x =
     (let (p, q) = quotient_of x;
          e = int (bits p) - int (bits q)
      in if pow2 e \<le> x then e else e - 1)"

definition round_even :: "rat \<Rightarrow> int" where
  "round_even x =
     (let f = \<lfloor>x\<rfloor>; d = x - of_int f
      in if d < 1 / 2 then f
         else if 1 / 2 < d then f + 1
         else if even f then f else f + 1)"

text \<open>
  The binary64 value nearest to a rational: a significand \<open>m\<close> of at most 53 bits at an
  exponent not below \<open>-1022\<close> (subnormal numbers), and infinity when the rounded value
  reaches \<open>2 ^ 1024\<close>.
\<close>

definition round64 :: "rat \<Rightarrow> num" where
  "round64 x =
     (if x = 0 then Finite 0
      else let a = \<bar>x\<bar>;
               e = max (ilog2 a) (- 1022);
               q = pow2 (e - 52);
               m = round_even (a / q)
           in if 1024 \<le> e \<or> (e = 1023 \<and> m = 2 ^ 53)
              then (if 0 < x then PosInf else NegInf)
              else Finite (if 0 < x then of_int m * q else - (of_int m * q)))"

fun num_neg :: "num \<Rightarrow> num" where
  "num_neg (Finite a) = Finite (- a)"
| "num_neg PosInf = NegInf"
| "num_neg NegInf = PosInf"
| "num_neg NaN = NaN"

fun num_add :: "num \<Rightarrow> num \<Rightarrow> num" where
  "num_add NaN y = NaN"
| "num_add x NaN = NaN"
| "num_add (Finite a) (Finite b) = round64 (a + b)"
| "num_add PosInf NegInf = NaN"
| "num_add NegInf PosInf = NaN"
| "num_add PosInf y = PosInf"
| "num_add NegInf y = NegInf"
| "num_add x PosInf = PosInf"
| "num_add x NegInf = NegInf"

definition num_sub :: "num \<Rightarrow> num \<Rightarrow> num" where
  "num_sub x y = num_add x (num_neg y)"

fun num_sgn :: "num \<Rightarrow> int" where
  "num_sgn (Finite a) = (if a = 0 then 0 else if 0 < a then 1 else - 1)"
| "num_sgn PosInf = 1"
| "num_sgn NegInf = - 1"
| "num_sgn NaN = 0"

fun num_mul :: "num \<Rightarrow> num \<Rightarrow> num" where
  "num_mul NaN y = NaN"
| "num_mul x NaN = NaN"
| "num_mul (Finite a) (Finite b) = round64 (a * b)"
| "num_mul x y =
     (if num_sgn x * num_sgn y = 0 then NaN
      else if 0 < num_sgn x * num_sgn y then PosInf else NegInf)"

text \<open>
  \<open>ToNumber\<close>, applied by \<open>*\<close> to an operand that is not a number. The conversion of
  strings, arrays and objects (the grammar of numeric strings) is a parameter. (It
  throws for the values \<open>ToString\<close> throws for; no position of the mapping has such
  \<open>lots\<close>, as is shown at the end.)
\<close>

fun to_number :: "(json \<Rightarrow> num) \<Rightarrow> json \<Rightarrow> num" where
  "to_number conv JUndefined = NaN"
| "to_number conv JNull = Finite 0"
| "to_number conv (JBool b) = Finite (if b then 1 else 0)"
| "to_number conv (JNum r) = round64 r"
| "to_number conv v = conv v"

text \<open>
  The comparison of two primitive values by \<open>===\<close> and by the keys of a \<open>Map\<close>:
  numbers by the binary64 number they are, everything else by value.
\<close>

fun same_value :: "json \<Rightarrow> json \<Rightarrow> bool" where
  "same_value (JNum x) (JNum y) = (round64 x = round64 y)"
| "same_value a b = (a = b)"

text \<open>
  \<open>a === b\<close>. Arrays and objects are compared by reference, and wherever this program
  compares two values they come from two different parses (two requests, or a request
  and a handshake), so two arrays or objects are never the same reference.
\<close>

definition strict_eq :: "json \<Rightarrow> json \<Rightarrow> bool" where
  "strict_eq a b = (is_primitive a \<and> same_value a b)"

text \<open>
  \<open>ToString\<close>, as a template literal applies it to a value, either gives a string or
  throws a \<open>TypeError\<close>. A parsed object holds no function, so its own member
  \<open>toString\<close>, when it has one, cannot be called and \<open>valueOf\<close> gives the object back:
  the conversion throws. Without that member the object prints as \<open>[object Object]\<close>.
  An array joins the strings of its elements.
\<close>

fun stringifiable :: "json \<Rightarrow> bool" where
  "stringifiable (JObj kvs) = (map_of kvs ''toString'' = None)"
| "stringifiable (JArr xs) = list_all stringifiable xs"
| "stringifiable v = True"

subsection \<open>Strings\<close>

text \<open>
  \<open>n.toString()\<close> for an integer: decimal digits, a minus sign when negative. (From
  \<open>10 ^ 21\<close> on JavaScript prints an exponent; \<open>Date.now()\<close> stays below \<open>10 ^ 16\<close>.)
\<close>

definition digit_char :: "nat \<Rightarrow> char" where
  "digit_char d = ''0123456789'' ! d"

fun digits :: "nat \<Rightarrow> string" where
  "digits n = (if n < 10 then [digit_char n] else digits (n div 10) @ [digit_char (n mod 10)])"

declare digits.simps [simp del]

definition to_string :: "int \<Rightarrow> string" where
  "to_string i = (if i < 0 then CHR ''-'' # digits (nat (- i)) else digits (nat i))"

text \<open>
  Reading a decimal numeral back: the value of the digits, negated after a minus sign.
\<close>

definition digit_value :: "char \<Rightarrow> nat" where
  "digit_value c = of_char c - 48"

definition read_nat :: "string \<Rightarrow> nat" where
  "read_nat s = foldl (\<lambda>n c. 10 * n + digit_value c) 0 s"

fun read_int :: "string \<Rightarrow> int" where
  "read_int [] = 0"
| "read_int (c # cs) = (if c = CHR ''-'' then - int (read_nat cs) else int (read_nat (c # cs)))"

text \<open>\<open>s.split(c)\<close> for a one-character separator: every occurrence splits, empty pieces stay.\<close>

fun split_on :: "char \<Rightarrow> string \<Rightarrow> string list" where
  "split_on c [] = [[]]"
| "split_on c (x # xs) =
     (if x = c then [] # split_on c xs
      else (case split_on c xs of [] \<Rightarrow> [[x]] | w # ws \<Rightarrow> (x # w) # ws))"

text \<open>\<open>xs[i]\<close>: \<open>undefined\<close> out of range.\<close>

fun nth_opt :: "'a list \<Rightarrow> nat \<Rightarrow> 'a option" where
  "nth_opt [] i = None"
| "nth_opt (x # xs) 0 = Some x"
| "nth_opt (x # xs) (Suc i) = nth_opt xs i"

text \<open>\<open>xs.slice(-n)\<close>: the last \<open>n\<close> elements, all of them when there are fewer.\<close>

definition slice_last :: "nat \<Rightarrow> 'a list \<Rightarrow> 'a list" where
  "slice_last n xs = drop (length xs - n) xs"

section \<open>The server's state\<close>

text \<open>The payload of a verified token: \<open>decoded\<close>, \<open>req.user\<close>.\<close>

record identity =
  accountNumber :: json
  broker :: json

record user =
  user_accountNumber :: json
  password :: string
  user_broker :: string
  isDemo :: bool
  createdAt :: int

record signal =
  sig_id :: string
  sig_pair :: json
  sig_action :: json
  sig_rsi :: json
  sig_macd :: json
  sig_strength :: json
  sig_quality :: json
  sig_timestamp :: int

record position =
  pos_id :: string
  pos_accountNumber :: json
  pos_pair :: json
  pos_type :: json
  lots :: json
  entryPrice :: num
  currentPrice :: num
  profit :: num
  stopLoss :: json
  takeProfit :: json
  openTime :: int

text \<open>
  What \<open>ws.send(JSON.stringify(...))\<close> hands to a socket. The text is built at the
  moment of sending, so a message holds the value the object had then.
\<close>

datatype message =
    InitMsg "signal list"
  | SignalMsg signal
  | PositionMsg position

datatype ready_state = CONNECTING | OPEN | CLOSING | CLOSED

text \<open>
  A WebSocket object: its \<open>readyState\<close>, the messages sent on it so far, and whether
  the \<open>close\<close> listener of the connection handler is attached.
\<close>

record socket =
  readyState :: ready_state
  sent :: "message list"
  closeListener :: bool

type_synonym ws = nat

text \<open>
  The four stores of the module and the WebSocket objects. A JavaScript \<open>Map\<close> keeps
  its entries in insertion order: it is an association list, \<open>set\<close> is
  \<open>AList.update\<close> (in place when the key is there, at the end otherwise) and
  \<open>delete\<close> is \<open>AList.delete\<close>.
\<close>

record state =
  users :: "(json \<times> user) list"
  signals :: "signal list"
  positions :: "(string \<times> position) list"
  activeConnections :: "(ws \<times> identity) list"
  sockets :: "ws \<Rightarrow> socket"

definition init_state :: state where
  "init_state =
     \<lparr>users = [], signals = [], positions = [], activeConnections = [],
      sockets = (\<lambda>w. \<lparr>readyState = CONNECTING, sent = [], closeListener = False\<rparr>)\<rparr>"

text \<open>
  The libraries and the configuration the server runs with: \<open>jsonwebtoken\<close> (its
  answers depend on the time, as tokens expire; \<open>None\<close> is a thrown error),
  \<open>bcryptjs\<close> on strings, the key of the signal feed (\<open>process.env.MT4_API_KEY\<close>,
  \<open>JUndefined\<close> when unset) and the conversion of non-primitive values to numbers.
\<close>

record env =
  JWT_verify :: "int \<Rightarrow> string \<Rightarrow> identity option"
  JWT_sign :: "int \<Rightarrow> identity \<Rightarrow> string option"
  bcrypt_hash :: "string \<Rightarrow> string"
  bcrypt_compare :: "string \<Rightarrow> string \<Rightarrow> bool"
  MT4_API_KEY :: json
  string_to_number :: "json \<Rightarrow> num"

datatype body =
    ErrorBody string
  | LoginBody string json string
  | SignalsBody "signal list"
  | SignalAccepted string
  | PositionsBody "position list"
  | TradeOpened string
  | Success
  | UncaughtError

datatype response = Response nat body

fun status :: "response \<Rightarrow> nat" where
  "status (Response c b) = c"

section \<open>WebSocket objects and broadcasting\<close>

definition ws_send :: "ws \<Rightarrow> message \<Rightarrow> state \<Rightarrow> state" where
  "ws_send w m st =
     st\<lparr>sockets := (sockets st)(w := (sockets st w)\<lparr>sent := sent (sockets st w) @ [m]\<rparr>)\<rparr>"

text \<open>\<open>ws.close()\<close> starts the closing handshake; a closed socket stays closed.\<close>

definition ws_close :: "ws \<Rightarrow> state \<Rightarrow> state" where
  "ws_close w st =
     (if readyState (sockets st w) = CLOSED then st
      else st\<lparr>sockets := (sockets st)(w := (sockets st w)\<lparr>readyState := CLOSING\<rparr>)\<rparr>)"

definition broadcastSignal :: "signal \<Rightarrow> state \<Rightarrow> state" where
  "broadcastSignal sg st =
     fold (\<lambda>(w, user) s.
             if readyState (sockets s w) = OPEN then ws_send w (SignalMsg sg) s else s)
          (activeConnections st) st"

definition broadcastPosition :: "position \<Rightarrow> json \<Rightarrow> state \<Rightarrow> state" where
  "broadcastPosition p acct st =
     fold (\<lambda>(w, user) s.
             if readyState (sockets s w) = OPEN \<and> strict_eq (accountNumber user) acct
             then ws_send w (PositionMsg p) s else s)
          (activeConnections st) st"

section \<open>Authentication\<close>

text \<open>\<open>bcrypt.hash\<close> and \<open>bcrypt.compare\<close> reject an argument that is not a string.\<close>

definition hash_password :: "env \<Rightarrow> json \<Rightarrow> error + string" where
  "hash_password env pw =
     (case pw of JStr s \<Rightarrow> Inr (bcrypt_hash env s) | _ \<Rightarrow> Inl IllegalArguments)"

definition compare_password :: "env \<Rightarrow> json \<Rightarrow> string \<Rightarrow> error + bool" where
  "compare_password env pw h =
     (case pw of JStr s \<Rightarrow> Inr (bcrypt_compare env s h) | _ \<Rightarrow> Inl IllegalArguments)"

text \<open>
  \<open>users.get\<close> and \<open>users.set\<close>: a \<open>Map\<close> finds a primitive key by value (a number
  by the binary64 number it is), and an array or object only by reference, which a
  later request never has. \<open>set\<close> on a key that is there replaces the value in place.
\<close>

fun users_lookup :: "json \<Rightarrow> (json \<times> user) list \<Rightarrow> user option" where
  "users_lookup k [] = None"
| "users_lookup k ((k', u) # rest) = (if same_value k' k then Some u else users_lookup k rest)"

fun users_replace :: "json \<Rightarrow> user \<Rightarrow> (json \<times> user) list \<Rightarrow> (json \<times> user) list" where
  "users_replace k u [] = [(k, u)]"
| "users_replace k u ((k', u') # rest) =
     (if same_value k' k then (k', u) # rest else (k', u') # users_replace k u rest)"

definition users_get :: "json \<Rightarrow> (json \<times> user) list \<Rightarrow> user option" where
  "users_get k us = (if is_primitive k then users_lookup k us else None)"

definition users_set :: "json \<Rightarrow> user \<Rightarrow> (json \<times> user) list \<Rightarrow> (json \<times> user) list" where
  "users_set k u us = (if is_primitive k then users_replace k u us else us @ [(k, u)])"

definition login_failed :: response where
  "login_failed = Response 500 (ErrorBody ''Login failed'')"

text \<open>Lines 54 to 72: the password check and the token, for the user found or created.\<close>

definition login_check :: "env \<Rightarrow> int \<Rightarrow> json \<Rightarrow> json \<Rightarrow> user \<Rightarrow> state \<Rightarrow> response \<times> state" where
  "login_check env t acct pw u st =
     (case compare_password env pw (password u) of
        Inl e \<Rightarrow> (login_failed, st)
      | Inr isValid \<Rightarrow>
          if \<not> isValid then (Response 401 (ErrorBody ''Invalid credentials''), st)
          else (case JWT_sign env t \<lparr>accountNumber = acct, broker = JStr (user_broker u)\<rparr> of
                  None \<Rightarrow> (login_failed, st)
                | Some token \<Rightarrow> (Response 200 (LoginBody token acct (user_broker u)), st)))"

text \<open>
  \<open>POST /api/auth/login\<close> awaits \<open>bcrypt\<close>, so the event loop runs it in two pieces
  with other events in between. The first piece, lines 34 to 40, runs when the request
  arrives: it reads the body and the user store, changes nothing, and either fails (the
  \<open>catch\<close> answers 500) or leaves what the rest of the handler goes on with.
\<close>

record pending_login =
  pl_accountNumber :: json
  pl_password :: json
  pl_user :: "user option"

definition login_begin :: "json \<Rightarrow> state \<Rightarrow> response + pending_login" where
  "login_begin reqbody st =
     (case bind_err (get_prop reqbody ''accountNumber'') (\<lambda>a.
           bind_err (get_prop reqbody ''password'') (\<lambda>p. Inr (a, p))) of
        Inl e \<Rightarrow> Inl login_failed
      | Inr (acct, pw) \<Rightarrow>
          Inr \<lparr>pl_accountNumber = acct, pl_password = pw,
               pl_user = users_get acct (users st)\<rparr>)"

text \<open>
  The second piece, lines 41 to 76, runs when \<open>bcrypt\<close> has answered, at time \<open>t\<close>
  with \<open>now\<close> the reading of \<open>Date.now()\<close>, on the store as it is by then: a user that
  was not found is created and stored, the password is checked against the user found
  or created, and the token is signed. (After \<open>users.set\<close> the handler awaits once
  more, but neither reads nor writes the stores again.)
\<close>

definition login_finish ::
  "env \<Rightarrow> int \<Rightarrow> int \<Rightarrow> pending_login \<Rightarrow> state \<Rightarrow> response \<times> state" where
  "login_finish env t now p st =
     (case pl_user p of
        Some u \<Rightarrow> login_check env t (pl_accountNumber p) (pl_password p) u st
      | None \<Rightarrow>
          (case hash_password env (pl_password p) of
             Inl e \<Rightarrow> (login_failed, st)
           | Inr hashedPassword \<Rightarrow>
               let u = \<lparr>user_accountNumber = pl_accountNumber p, password = hashedPassword,
                        user_broker = ''Demo'', isDemo = True, createdAt = now\<rparr>
               in login_check env t (pl_accountNumber p) (pl_password p) u
                    (st\<lparr>users := users_set (pl_accountNumber p) u (users st)\<rparr>)))"

text \<open>
  The middleware \<open>authenticateToken\<close> on the \<open>Authorization\<close> header: the response it
  sends itself, or the identity it stores in \<open>req.user\<close> before the handler runs.
\<close>

definition authenticateToken :: "env \<Rightarrow> int \<Rightarrow> string option \<Rightarrow> response + identity" where
  "authenticateToken env t authHeader =
     (let token = (case authHeader of
                     None \<Rightarrow> None
                   | Some h \<Rightarrow> if h = [] then Some [] else nth_opt (split_on CHR '' '' h) 1)
      in case token of
           None \<Rightarrow> Inl (Response 401 (ErrorBody ''Access denied''))
         | Some tk \<Rightarrow>
             if tk = [] then Inl (Response 401 (ErrorBody ''Access denied''))
             else (case JWT_verify env t tk of
                     None \<Rightarrow> Inl (Response 403 (ErrorBody ''Invalid token''))
                   | Some u \<Rightarrow> Inr u))"

definition authenticated ::
  "env \<Rightarrow> int \<Rightarrow> string option \<Rightarrow> (identity \<Rightarrow> state \<Rightarrow> response \<times> state) \<Rightarrow> state \<Rightarrow> response \<times> state" where
  "authenticated env t authHeader handler st =
     (case authenticateToken env t authHeader of
        Inl r \<Rightarrow> (r, st)
      | Inr u \<Rightarrow> handler u st)"

section \<open>Signals\<close>

text \<open>
  \<open>signals.filter(s => Date.now() - s.timestamp < 3600000)\<close>. The clock is read once
  for every element: \<open>clk i\<close> is the reading for the element at index \<open>i\<close>.
\<close>

fun recent :: "(nat \<Rightarrow> int) \<Rightarrow> nat \<Rightarrow> signal list \<Rightarrow> signal list" where
  "recent clk i [] = []"
| "recent clk i (s # ss) =
     (if clk i - sig_timestamp s < 3600000 then s # recent clk (Suc i) ss
      else recent clk (Suc i) ss)"

text \<open>\<open>GET /api/signals\<close>, behind \<open>authenticateToken\<close>.\<close>

definition get_signals :: "(nat \<Rightarrow> int) \<Rightarrow> identity \<Rightarrow> state \<Rightarrow> response \<times> state" where
  "get_signals clk u st = (Response 200 (SignalsBody (recent clk 0 (signals st))), st)"

definition signal_failed :: response where
  "signal_failed = Response 500 (ErrorBody ''Failed to process signal'')"

text \<open>Lines 118 to 127; \<open>now1\<close> and \<open>now2\<close> are the two readings of \<open>Date.now()\<close>.\<close>

definition new_signal :: "json \<Rightarrow> int \<Rightarrow> int \<Rightarrow> error + signal" where
  "new_signal sg now1 now2 =
     bind_err (get_prop sg ''pair'') (\<lambda>pair.
     bind_err (get_prop sg ''action'') (\<lambda>action.
     bind_err (get_prop sg ''rsi'') (\<lambda>rsi.
     bind_err (get_prop sg ''macd'') (\<lambda>macd.
     bind_err (get_prop sg ''strength'') (\<lambda>strength.
     bind_err (get_prop sg ''quality'') (\<lambda>quality.
       Inr \<lparr>sig_id = to_string now1, sig_pair = pair, sig_action = action, sig_rsi = rsi,
            sig_macd = macd, sig_strength = strength, sig_quality = quality,
            sig_timestamp = now2\<rparr>))))))"

text \<open>Lines 129 to 133: \<open>push\<close>, then \<open>shift\<close> when more than 50 are held.\<close>

definition push_signal :: "signal \<Rightarrow> signal list \<Rightarrow> signal list" where
  "push_signal s xs = (let ys = xs @ [s] in if 50 < length ys then tl ys else ys)"

text \<open>\<open>POST /api/signals\<close>.\<close>

definition post_signals :: "env \<Rightarrow> int \<Rightarrow> int \<Rightarrow> json \<Rightarrow> state \<Rightarrow> response \<times> state" where
  "post_signals env now1 now2 reqbody st =
     (case bind_err (get_prop reqbody ''apiKey'') (\<lambda>k.
           bind_err (get_prop reqbody ''signal'') (\<lambda>sg. Inr (k, sg))) of
        Inl e \<Rightarrow> (signal_failed, st)
      | Inr (apiKey, sg) \<Rightarrow>
          if \<not> strict_eq apiKey (MT4_API_KEY env)
          then (Response 401 (ErrorBody ''Invalid API key''), st)
          else (case new_signal sg now1 now2 of
                  Inl e \<Rightarrow> (signal_failed, st)
                | Inr newSignal \<Rightarrow>
                    (Response 200 (SignalAccepted (sig_id newSignal)),
                     broadcastSignal newSignal
                       (st\<lparr>signals := push_signal newSignal (signals st)\<rparr>))))"

section \<open>Positions and trading\<close>

text \<open>\<open>GET /api/positions\<close>, behind \<open>authenticateToken\<close>: the filter of lines 152 to 153.\<close>

definition userPositions :: "json \<Rightarrow> state \<Rightarrow> position list" where
  "userPositions acct st =
     filter (\<lambda>p. strict_eq (pos_accountNumber p) acct) (map snd (positions st))"

text \<open>
  The log line of line 155 converts the account number to a string, outside of any
  \<open>try\<close>: when that throws, express answers 500 itself.
\<close>

definition get_positions :: "identity \<Rightarrow> state \<Rightarrow> response \<times> state" where
  "get_positions u st =
     (if stringifiable (accountNumber u)
      then (Response 200 (PositionsBody (userPositions (accountNumber u) st)), st)
      else (Response 500 UncaughtError, st))"

definition trade_failed :: response where
  "trade_failed = Response 500 (ErrorBody ''Failed to execute trade'')"

text \<open>
  Lines 165 to 183. The log line of line 168 converts \<open>pair\<close>, \<open>type\<close>, \<open>lots\<close> and the
  account number to strings and throws when one of them cannot be converted. The price
  literals are the binary64 numbers nearest to them.
\<close>

definition new_position :: "json \<Rightarrow> json \<Rightarrow> int \<Rightarrow> int \<Rightarrow> error + position" where
  "new_position reqbody acct now1 now2 =
     bind_err (get_prop reqbody ''pair'') (\<lambda>pair.
     bind_err (get_prop reqbody ''type'') (\<lambda>type.
     bind_err (get_prop reqbody ''lots'') (\<lambda>lots.
     bind_err (get_prop reqbody ''stopLoss'') (\<lambda>stopLoss.
     bind_err (get_prop reqbody ''takeProfit'') (\<lambda>takeProfit.
       if stringifiable pair \<and> stringifiable type \<and> stringifiable lots \<and> stringifiable acct
       then Inr \<lparr>pos_id = to_string now1, pos_accountNumber = acct, pos_pair = pair,
                 pos_type = type, lots = lots,
                 entryPrice = (if strict_eq type (JStr ''BUY'') then round64 (389345 / 100)
                               else round64 (389320 / 100)),
                 currentPrice = round64 (389345 / 100), profit = Finite 0,
                 stopLoss = stopLoss, takeProfit = takeProfit, openTime = now2\<rparr>
       else Inl TypeError)))))"

text \<open>\<open>POST /api/trade/open\<close>, behind \<open>authenticateToken\<close>.\<close>

definition post_trade_open :: "int \<Rightarrow> int \<Rightarrow> json \<Rightarrow> identity \<Rightarrow> state \<Rightarrow> response \<times> state" where
  "post_trade_open now1 now2 reqbody u st =
     (case new_position reqbody (accountNumber u) now1 now2 of
        Inl e \<Rightarrow> (trade_failed, st)
      | Inr p \<Rightarrow>
          (Response 200 (TradeOpened (pos_id p)),
           broadcastPosition p (accountNumber u)
             (st\<lparr>positions := AList.update (pos_id p) p (positions st)\<rparr>)))"

text \<open>
  \<open>POST /api/trade/close/:positionId\<close>, behind \<open>authenticateToken\<close>. The log line of
  line 207 converts the account number to a string, inside the \<open>try\<close>.
\<close>

definition post_trade_close :: "string \<Rightarrow> identity \<Rightarrow> state \<Rightarrow> response \<times> state" where
  "post_trade_close positionId u st =
     (case map_of (positions st) positionId of
        None \<Rightarrow> (Response 404 (ErrorBody ''Position not found''), st)
      | Some p \<Rightarrow>
          if \<not> strict_eq (pos_accountNumber p) (accountNumber u)
          then (Response 404 (ErrorBody ''Position not found''), st)
          else if \<not> stringifiable (accountNumber u)
          then (Response 500 (ErrorBody ''Failed to close position''), st)
          else (Response 200 Success,
                st\<lparr>positions := AList.delete positionId (positions st)\<rparr>))"

section \<open>The WebSocket gateway\<close>

text \<open>
  The \<open>connection\<close> handler, at time \<open>t\<close>, for the socket \<open>w\<close> and the value of
  \<open>params.get('token')\<close> (\<open>None\<close> is \<open>null\<close>: the URL has no such parameter). The
  \<open>try\<close> holds \<open>jwt.verify\<close>, \<open>activeConnections.set\<close>, the log line of line 248, which
  converts the account number to a string, \<open>ws.send\<close> and \<open>ws.on('close')\<close>, in that
  order: when the log line throws, the socket is registered already, and the \<open>catch\<close>
  closes it.
\<close>

definition on_connection :: "env \<Rightarrow> int \<Rightarrow> ws \<Rightarrow> string option \<Rightarrow> state \<Rightarrow> state" where
  "on_connection env t w token st =
     (case token of
        None \<Rightarrow> ws_close w st
      | Some tk \<Rightarrow>
          if tk = [] then ws_close w st
          else (case JWT_verify env t tk of
                  None \<Rightarrow> ws_close w st
                | Some decoded \<Rightarrow>
                    let st1 = st\<lparr>activeConnections :=
                                   AList.update w decoded (activeConnections st)\<rparr>
                    in if \<not> stringifiable (accountNumber decoded) then ws_close w st1
                       else let st2 = ws_send w (InitMsg (slice_last 10 (signals st1))) st1
                            in st2\<lparr>sockets := (sockets st2)
                                     (w := (sockets st2 w)\<lparr>closeListener := True\<rparr>)\<rparr>))"

text \<open>
  The server emits \<open>connection\<close> for a socket whose handshake is complete: the socket
  is open when the handler starts.
\<close>

definition ws_connect :: "env \<Rightarrow> int \<Rightarrow> ws \<Rightarrow> string option \<Rightarrow> state \<Rightarrow> state" where
  "ws_connect env t w token st =
     on_connection env t w token
       (st\<lparr>sockets := (sockets st)(w := (sockets st w)\<lparr>readyState := OPEN\<rparr>)\<rparr>)"

text \<open>
  The transport of \<open>w\<close> closes: the socket is closed and emits \<open>close\<close>, which runs
  the listener of lines 255 to 258 when it is attached.
\<close>

definition ws_closed :: "ws \<Rightarrow> state \<Rightarrow> state" where
  "ws_closed w st =
     (let st1 = st\<lparr>sockets := (sockets st)(w := (sockets st w)\<lparr>readyState := CLOSED\<rparr>)\<rparr>
      in if closeListener (sockets st w)
         then st1\<lparr>activeConnections := AList.delete w (activeConnections st1)\<rparr>
         else st1)"

section \<open>The position ticker\<close>

text \<open>Lines 291 to 298 for one position; \<open>r\<close> is the value of \<open>Math.random()\<close>.\<close>

definition tick_position :: "(json \<Rightarrow> num) \<Rightarrow> num \<Rightarrow> position \<Rightarrow> position" where
  "tick_position conv r p =
     (let randomChange = num_mul (num_sub r (Finite (1 / 2))) (Finite 2);
          cur = num_add (currentPrice p) randomChange;
          priceDiff = (if strict_eq (pos_type p) (JStr ''BUY'')
                       then num_sub cur (entryPrice p)
                       else num_sub (entryPrice p) cur)
      in p\<lparr>currentPrice := cur,
           profit := num_mul (num_mul priceDiff (to_number conv (lots p))) (Finite 100)\<rparr>)"

text \<open>
  \<open>positions.forEach\<close>: the entry at index \<open>i\<close> is changed in place, with the
  \<open>i\<close>-th random number, and broadcast to its account.
\<close>

fun tick_loop ::
  "(json \<Rightarrow> num) \<Rightarrow> (nat \<Rightarrow> num) \<Rightarrow> nat \<Rightarrow> (string \<times> position) list \<Rightarrow> state \<Rightarrow> state" where
  "tick_loop conv rnd i [] st = st"
| "tick_loop conv rnd i ((k, p) # rest) st =
     (let p' = tick_position conv (rnd i) p;
          st1 = st\<lparr>positions := (positions st)[i := (k, p')]\<rparr>
      in tick_loop conv rnd (Suc i) rest (broadcastPosition p' (pos_accountNumber p') st1))"

definition tick :: "env \<Rightarrow> (nat \<Rightarrow> num) \<Rightarrow> state \<Rightarrow> state" where
  "tick env rnd st = tick_loop (string_to_number env) rnd 0 (positions st) st"

section \<open>Runs of the server\<close>

text \<open>
  What the event loop runs, one at a time: a request with what it carries and the
  clock readings its handler makes, a new WebSocket, a transport closing, or the timer
  with the random numbers it draws. The first piece of a login changes nothing and is
  no event of its own; \<open>LoginResumed\<close> is the second piece, with what the first one
  left, whatever ran in between.
\<close>

datatype event =
    LoginResumed int int pending_login
  | GetSignals int "string option" "nat \<Rightarrow> int"
  | PostSignals int int json
  | GetPositions int "string option"
  | PostTradeOpen int "string option" int int json
  | PostTradeClose int "string option" string
  | WsConnection int ws "string option"
  | WsClosed ws
  | Tick "nat \<Rightarrow> num"

fun step :: "env \<Rightarrow> event \<Rightarrow> state \<Rightarrow> state" where
  "step env (LoginResumed t now p) st = snd (login_finish env t now p st)"
| "step env (GetSignals t h clk) st = snd (authenticated env t h (get_signals clk) st)"
| "step env (PostSignals now1 now2 b) st = snd (post_signals env now1 now2 b st)"
| "step env (GetPositions t h) st = snd (authenticated env t h get_positions st)"
| "step env (PostTradeOpen t h now1 now2 b) st =
     snd (authenticated env t h (post_trade_open now1 now2 b) st)"
| "step env (PostTradeClose t h pid) st = snd (authenticated env t h (post_trade_close pid) st)"
| "step env (WsConnection t w token) st = ws_connect env t w token st"
| "step env (WsClosed w) st = ws_closed w st"
| "step env (Tick rnd) st = tick env rnd st"

definition run :: "env \<Rightarrow> event list \<Rightarrow> state \<Rightarrow> state" where
  "run env evs st = fold (step env) evs st"

section \<open>Notions used by the properties\<close>

text \<open>
  Both broadcasts are the same loop over the registry, with a condition on the identity
  bound to the connection.
\<close>

definition send_where ::
  "(identity \<Rightarrow> bool) \<Rightarrow> message \<Rightarrow> (ws \<times> identity) list \<Rightarrow> state \<Rightarrow> state" where
  "send_where P m cs st =
     fold (\<lambda>(w, user) s.
             if readyState (sockets s w) = OPEN \<and> P user then ws_send w m s else s) cs st"

text \<open>
  A handshake the gateway turns down: no \<open>token\<close> parameter, an empty one, or a token
  that \<open>jwt.verify\<close> refuses at that time.
\<close>

definition handshake_fails :: "env \<Rightarrow> int \<Rightarrow> string option \<Rightarrow> bool" where
  "handshake_fails env t token =
     (case token of None \<Rightarrow> True | Some tk \<Rightarrow> tk = [] \<or> JWT_verify env t tk = None)"

text \<open>Every \<open>connection\<close> event of the socket \<open>w\<close> in a run is such a handshake.\<close>

fun rejected_handshakes :: "env \<Rightarrow> ws \<Rightarrow> event list \<Rightarrow> bool" where
  "rejected_handshakes env w [] = True"
| "rejected_handshakes env w (WsConnection t w' token # evs) =
     ((w' = w \<longrightarrow> handshake_fails env t token) \<and> rejected_handshakes env w evs)"
| "rejected_handshakes env w (ev # evs) = rejected_handshakes env w evs"

subsection \<open>An example configuration\<close>

text \<open>
  A concrete environment on which the properties are evaluated: a token is the account
  name behind a fixed prefix, a hash is the password behind a fixed prefix.
\<close>

definition example_env :: env where
  "example_env =
     \<lparr>JWT_verify = (\<lambda>t tk. if take 4 tk = ''jwt.''
                            then Some \<lparr>accountNumber = JStr (drop 4 tk), broker = JStr ''Demo''\<rparr>
                            else None),
      JWT_sign = (\<lambda>t i. case accountNumber i of JStr s \<Rightarrow> Some (''jwt.'' @ s) | _ \<Rightarrow> Some ''jwt.''),
      bcrypt_hash = (\<lambda>s. ''$2a$'' @ s),
      bcrypt_compare = (\<lambda>s h. h = ''$2a$'' @ s),
      MT4_API_KEY = JStr ''mt4-key'',
      string_to_number = (\<lambda>v. NaN)\<rparr>"

definition alice :: identity where
  "alice = \<lparr>accountNumber = JStr ''A'', broker = JStr ''Demo''\<rparr>"

definition bob :: identity where
  "bob = \<lparr>accountNumber = JStr ''B'', broker = JStr ''Demo''\<rparr>"

definition example_position :: position where
  "example_position =
     \<lparr>pos_id = ''1700000000000'', pos_accountNumber = JStr ''A'', pos_pair = JStr ''XAUUSD'',
      pos_type = JStr ''BUY'', lots = JNum 1, entryPrice = round64 (389345 / 100),
      currentPrice = Finite 3900, profit = Finite 0, stopLoss = JUndefined,
      takeProfit = JUndefined, openTime = 1700000000000\<rparr>"

text \<open>Two open connections, of two accounts, and a third one that is closing.\<close>

definition example_state :: state where
  "example_state =
     \<lparr>users = [], signals = [], positions = [(''1700000000000'', example_position)],
      activeConnections = [(1, alice), (2, bob), (3, alice)],
      sockets = (\<lambda>w. \<lparr>readyState = (if w = 3 then CLOSING else OPEN), sent = [],
                       closeListener = True\<rparr>)\<rparr>"

definition example_signal_body :: json where
  "example_signal_body =
     JObj [(''apiKey'', JStr ''mt4-key''),
           (''signal'', JObj [(''pair'', JStr ''XAUUSD''), (''action'', JStr ''BUY'')])]"

text \<open>
  A run from the initial state: one admitted connection, one without a token, one with
  a forged token, then a signal, a trade and a tick.
\<close>

definition example_run :: "event list" where
  "example_run =
     [WsConnection 10 1 (Some ''jwt.A''),
      WsConnection 20 2 None,
      WsConnection 30 3 (Some ''forged''),
      PostSignals 40 41 example_signal_body,
      PostTradeOpen 50 (Some ''Bearer jwt.A'') 60 61
        (JObj [(''type'', JStr ''BUY''), (''lots'', JNum 1)]),
      Tick (\<lambda>i. Finite (1 / 2))]"

text \<open>A state holding 50 signals: one from long ago, then 49 copies of a later one.\<close>

definition old_signal :: signal where
  "old_signal =
     \<lparr>sig_id = ''1'', sig_pair = JStr ''XAUUSD'', sig_action = JStr ''SELL'', sig_rsi = JNum 70,
      sig_macd = JUndefined, sig_strength = JUndefined, sig_quality = JUndefined,
      sig_timestamp = 1\<rparr>"

definition newer_signal :: signal where
  "newer_signal = old_signal\<lparr>sig_id := ''2'', sig_timestamp := 4000000\<rparr>"

definition full_state :: state where
  "full_state = init_state\<lparr>signals := old_signal # replicate 49 newer_signal\<rparr>"

text \<open>Every entry of the position mapping is stored under the id it carries.\<close>

definition positions_keyed :: "state \<Rightarrow> bool" where
  "positions_keyed st = list_all (\<lambda>(k, p). pos_id p = k) (positions st)"


definition buy_order :: json where
  "buy_order = JObj [(''pair'', JStr ''XAUUSD''), (''type'', JStr ''BUY''), (''lots'', JNum 1)]"

definition sell_order :: json where
  "sell_order = JObj [(''pair'', JStr ''XAUUSD''), (''type'', JStr ''SELL''), (''lots'', JNum 2)]"

definition same_ms_state :: state where
  "same_ms_state = snd (post_trade_open 1700000000000 1700000000000 buy_order alice init_state)"

text \<open>Requests as a client can send them: a signal request without its signal, two logins.\<close>

definition keyed_body :: json where
  "keyed_body = JObj [(''apiKey'', JStr ''mt4-key'')]"

definition new_login :: json where
  "new_login = JObj [(''accountNumber'', JStr ''A''), (''password'', JStr ''pw'')]"

definition numeric_login :: json where
  "numeric_login = JObj [(''accountNumber'', JStr ''A''), (''password'', JNum 1234)]"

text \<open>
  The member \<open>k\<close> of a value that is neither \<open>undefined\<close> nor \<open>null\<close>: \<open>undefined\<close>
  when the value is no object or has no such member.
\<close>

definition member :: "json \<Rightarrow> string \<Rightarrow> json" where
  "member v k =
     (case v of
        JObj kvs \<Rightarrow> (case map_of kvs k of Some x \<Rightarrow> x | None \<Rightarrow> JUndefined)
      | _ \<Rightarrow> JUndefined)"

text \<open>
  An account whose number is an object with a member \<open>toString\<close>, as
  \<open>{"accountNumber": {"toString": 0}, "password": "pw"}\<close> registers it at the login, and
  an environment in which its token verifies.
\<close>

definition odd_identity :: identity where
  "odd_identity = \<lparr>accountNumber = JObj [(''toString'', JNum 0)], broker = JStr ''Demo''\<rparr>"

definition odd_login :: json where
  "odd_login = JObj [(''accountNumber'', JObj [(''toString'', JNum 0)]), (''password'', JStr ''pw'')]"

definition odd_env :: env where
  "odd_env =
     example_env
       \<lparr>JWT_verify := (\<lambda>t tk. if tk = ''jwt#odd'' then Some odd_identity
                               else JWT_verify example_env t tk),
        JWT_sign := (\<lambda>t i. if i = odd_identity then Some ''jwt#odd''
                             else JWT_sign example_env t i)\<rparr>"



text \<open>What the first piece of a login leaves for an account that is not in the store.\<close>

definition new_pending :: pending_login where
  "new_pending = \<lparr>pl_accountNumber = JStr ''A'', pl_password = JStr ''pw'', pl_user = None\<rparr>"

text \<open>A login of the same account with another password, as the store is when it arrives.\<close>

definition wrong_pending :: "state \<Rightarrow> pending_login" where
  "wrong_pending st =
     \<lparr>pl_accountNumber = JStr ''A'', pl_password = JStr ''other'',
      pl_user = users_get (JStr ''A'') (users st)\<rparr>"

definition wrong_login :: json where
  "wrong_login = JObj [(''accountNumber'', JStr ''A''), (''password'', JStr ''other'')]"

definition numeric_pending :: pending_login where
  "numeric_pending = \<lparr>pl_accountNumber = JStr ''A'', pl_password = JNum 1234, pl_user = None\<rparr>"

section \<open>The rounding of numbers\<close>

text \<open>
  The exponent found by \<open>ilog2\<close> is the right one, and \<open>round64\<close> rounds to a
  nearest number of the format.
\<close>

lemma pow2_powi: "pow2 e = 2 powi e"
  by (simp add: pow2_def power_int_def inverse_eq_divide power_one_over)

lemma pow2_pos [simp]: "0 < pow2 e"
  by (simp add: pow2_powi)

lemma pow2_nonzero [simp]: "pow2 e \<noteq> 0"
  using pow2_pos [of e] by (simp del: pow2_pos)

lemma pow2_nonneg [simp]: "0 \<le> pow2 e"
  by (rule less_imp_le) (rule pow2_pos)

lemma pow2_Suc: "pow2 (e + 1) = 2 * pow2 e"
  by (simp add: pow2_powi power_int_add_1)

lemma pow2_diff_nat: "pow2 (int a - int b) = 2 ^ a / 2 ^ b"
  by (simp add: pow2_powi power_int_diff)

lemma bits_bounds:
  "0 < n \<Longrightarrow> 2 ^ (bits n - 1) \<le> n \<and> n < 2 ^ bits n"
proof (induction n rule: bits.induct)
  case (1 n)
  show ?case
  proof (cases "n div 2 \<le> 0")
    case True
    with 1(2) have "n = 1" by linarith
    then show ?thesis by (simp add: bits.simps)
  next
    case False
    then have pos: "0 < n div 2" by simp
    from 1(2) have nz: "\<not> n \<le> 0" by simp
    from 1(1) [OF nz pos]
    have lo: "2 ^ (bits (n div 2) - 1) \<le> n div 2" and hi: "n div 2 < 2 ^ bits (n div 2)"
      by simp_all
    from pos have b: "0 < bits (n div 2)" by (simp add: bits.simps [of "n div 2"])
    have s: "bits n = Suc (bits (n div 2))" using nz by (simp add: bits.simps [of n])
    have "(2::int) ^ bits (n div 2) = 2 * 2 ^ (bits (n div 2) - 1)"
      using b by (cases "bits (n div 2)") simp_all
    with lo have "2 ^ bits (n div 2) \<le> 2 * (n div 2)" by simp
    also have "\<dots> \<le> n" by simp
    finally have l: "2 ^ (bits n - 1) \<le> n" by (simp add: s)
    from hi have "n div 2 + 1 \<le> 2 ^ bits (n div 2)" by simp
    then have "2 * (n div 2) + 2 \<le> 2 * 2 ^ bits (n div 2)" by simp
    moreover have "n < 2 * (n div 2) + 2" by presburger
    ultimately have "n < 2 ^ bits n" by (simp add: s)
    with l show ?thesis by simp
  qed
qed

lemma ilog2_bounds:
  assumes "0 < x"
  shows "pow2 (ilog2 x) \<le> x \<and> x < pow2 (ilog2 x + 1)"
proof -
  obtain p q where pq: "quotient_of x = (p, q)" by (cases "quotient_of x")
  then have q: "0 < q" and x: "x = of_int p / of_int q"
    by (simp_all add: quotient_of_denom_pos quotient_of_div)
  with assms have p: "0 < p" by (simp add: zero_less_divide_iff)
  let ?e = "int (bits p) - int (bits q)"
  from bits_bounds [OF p] have p1: "(2::rat) ^ (bits p - 1) \<le> of_int p" and p2: "of_int p < (2::rat) ^ bits p"
    by (metis of_int_le_iff of_int_numeral of_int_power, metis of_int_less_iff of_int_numeral of_int_power)
  from bits_bounds [OF q] have q1: "(2::rat) ^ (bits q - 1) \<le> of_int q" and q2: "of_int q < (2::rat) ^ bits q"
    by (metis of_int_le_iff of_int_numeral of_int_power, metis of_int_less_iff of_int_numeral of_int_power)
  from p have bp: "0 < bits p" by (simp add: bits.simps [of p])
  from q have bq: "0 < bits q" by (simp add: bits.simps [of q])
  have qr: "(0::rat) < of_int q" using q by simp
  have pr: "(0::rat) < of_int p" using p by simp
  have up: "x < pow2 (?e + 1)"
  proof -
    have "pow2 (?e + 1) = 2 ^ bits p / 2 ^ (bits q - 1)"
      using bq pow2_diff_nat [of "bits p" "bits q - 1"] by (simp add: of_nat_diff algebra_simps)
    moreover have "of_int p / of_int q < (2::rat) ^ bits p / 2 ^ (bits q - 1)"
      using p2 q1 qr pr by (intro frac_less) simp_all
    ultimately show ?thesis by (simp add: x)
  qed
  have lo: "pow2 (?e - 1) \<le> x"
  proof -
    have "pow2 (?e - 1) = 2 ^ (bits p - 1) / 2 ^ bits q"
      using bp pow2_diff_nat [of "bits p - 1" "bits q"] by (simp add: of_nat_diff algebra_simps)
    moreover have "(2::rat) ^ (bits p - 1) / 2 ^ bits q \<le> of_int p / of_int q"
      using p1 q2 qr pr by (intro frac_le) simp_all
    ultimately show ?thesis by (simp add: x)
  qed
  show ?thesis
  proof (cases "pow2 ?e \<le> x")
    case True
    then have "ilog2 x = ?e" by (simp add: ilog2_def pq)
    with True up show ?thesis by simp
  next
    case False
    then have "ilog2 x = ?e - 1" by (simp add: ilog2_def pq)
    with False lo show ?thesis by simp
  qed
qed

lemma round_even_nearest: "\<bar>of_int (round_even x) - x\<bar> \<le> 1 / 2"
proof -
  have "\<bar>of_int (if x - of_int f < 1 / 2 then f
                   else if 1 / 2 < x - of_int f then f + 1
                   else if even f then f else f + 1) - x\<bar> \<le> 1 / 2"
    if "of_int f \<le> x" and "x < of_int f + 1" for f :: int
    using that by (auto simp: abs_if)
  note gen = this
  have a: "of_int \<lfloor>x\<rfloor> \<le> x" by simp
  have b: "x < of_int \<lfloor>x\<rfloor> + 1" by linarith
  show ?thesis
    unfolding round_even_def Let_def by (rule gen [OF a b])
qed

text \<open>A finite result of \<open>round64\<close> is within half a unit in the last place of its argument.\<close>

lemma round64_error:
  assumes "round64 x = Finite y"
  shows "\<bar>y - x\<bar> \<le> pow2 (max (ilog2 \<bar>x\<bar>) (- 1022) - 53)"
proof (cases "x = 0")
  case True
  with assms have "y = 0" by (simp add: round64_def)
  with True show ?thesis by simp
next
  case False
  define e where "e = max (ilog2 \<bar>x\<bar>) (- 1022)"
  define q where "q = pow2 (e - 52)"
  define m where "m = round_even (\<bar>x\<bar> / q)"
  have q: "0 < q" by (simp add: q_def)
  have "round64 x =
          (if 1024 \<le> e \<or> (e = 1023 \<and> m = 2 ^ 53)
           then (if 0 < x then PosInf else NegInf)
           else Finite (if 0 < x then of_int m * q else - (of_int m * q)))"
    using False unfolding round64_def Let_def e_def q_def m_def by (rule if_not_P)
  with assms have y: "y = (if 0 < x then of_int m * q else - (of_int m * q))"
    by (simp split: if_splits)
  have "(of_int m - \<bar>x\<bar> / q) * q = of_int m * q - \<bar>x\<bar>"
    using q by (simp add: left_diff_distrib)
  then have "\<bar>of_int m * q - \<bar>x\<bar>\<bar> = \<bar>(of_int m - \<bar>x\<bar> / q) * q\<bar>"
    by simp
  also have "\<dots> = \<bar>of_int m - \<bar>x\<bar> / q\<bar> * q"
    using q by (simp only: abs_mult abs_of_pos)
  also have "\<dots> \<le> 1 / 2 * q"
    using round_even_nearest [of "\<bar>x\<bar> / q"] q
    unfolding m_def by (intro mult_right_mono) simp_all
  also have "1 / 2 * q = pow2 (e - 53)"
    using pow2_Suc [of "e - 53"] by (simp add: q_def)
  finally have "\<bar>of_int m * q - \<bar>x\<bar>\<bar> \<le> pow2 (e - 53)" .
  moreover have "\<bar>y - x\<bar> = \<bar>of_int m * q - \<bar>x\<bar>\<bar>"
  proof (cases "0 < x")
    case True
    then show ?thesis by (simp add: y)
  next
    case neg: False
    with False have "y - x = - (of_int m * q - \<bar>x\<bar>)" by (simp add: y)
    then show ?thesis by (simp only: abs_minus)
  qed
  ultimately show ?thesis by (simp add: e_def)
qed

section \<open>Broadcasting\<close>

lemma broadcastSignal_send_where:
  "broadcastSignal sg st = send_where (\<lambda>u. True) (SignalMsg sg) (activeConnections st) st"
  by (simp add: broadcastSignal_def send_where_def)

lemma broadcastPosition_send_where:
  "broadcastPosition p acct st =
     send_where (\<lambda>u. strict_eq (accountNumber u) acct) (PositionMsg p) (activeConnections st) st"
  by (simp add: broadcastPosition_def send_where_def)

lemma send_where_Nil [simp]: "send_where P m [] st = st"
  by (simp add: send_where_def)

lemma send_where_Cons:
  "send_where P m ((w, u) # cs) st =
     send_where P m cs (if readyState (sockets st w) = OPEN \<and> P u then ws_send w m st else st)"
  by (simp add: send_where_def)

lemma ws_send_fields [simp]:
  "users (ws_send w m st) = users st"
  "signals (ws_send w m st) = signals st"
  "positions (ws_send w m st) = positions st"
  "activeConnections (ws_send w m st) = activeConnections st"
  "readyState (sockets (ws_send w m st) v) = readyState (sockets st v)"
  "closeListener (sockets (ws_send w m st) v) = closeListener (sockets st v)"
  "sent (sockets (ws_send w m st) v) = sent (sockets st v) @ (if v = w then [m] else [])"
  by (simp_all add: ws_send_def)

lemma send_where_fields [simp]:
  "users (send_where P m cs st) = users st"
  "signals (send_where P m cs st) = signals st"
  "positions (send_where P m cs st) = positions st"
  "activeConnections (send_where P m cs st) = activeConnections st"
  "readyState (sockets (send_where P m cs st) v) = readyState (sockets st v)"
  "closeListener (sockets (send_where P m cs st) v) = closeListener (sockets st v)"
  by (induction cs arbitrary: st; simp add: send_where_Cons split_paired_all)+

text \<open>What a broadcast adds to the messages of a socket: one copy for each matching entry.\<close>

lemma send_where_sent:
  "sent (sockets (send_where P m cs st) v) =
     sent (sockets st v) @
     concat (map (\<lambda>(w, u). if w = v \<and> readyState (sockets st v) = OPEN \<and> P u
                            then [m] else []) cs)"
proof (induction cs arbitrary: st)
  case Nil
  show ?case by simp
next
  case (Cons c cs)
  obtain w u where c: "c = (w, u)" by (cases c)
  show ?case
    unfolding c send_where_Cons Cons.IH by auto
qed

lemma concat_absent_key:
  assumes "v \<notin> fst ` set cs"
  shows "concat (map (\<lambda>(w, u'). if w = v \<and> Q u' then [m] else []) cs) = []"
  using assms by (induction cs) auto




section \<open>What each handler leaves unchanged\<close>

lemma broadcastSignal_fields [simp]:
  "users (broadcastSignal sg st) = users st"
  "signals (broadcastSignal sg st) = signals st"
  "positions (broadcastSignal sg st) = positions st"
  "activeConnections (broadcastSignal sg st) = activeConnections st"
  "readyState (sockets (broadcastSignal sg st) v) = readyState (sockets st v)"
  "closeListener (sockets (broadcastSignal sg st) v) = closeListener (sockets st v)"
  by (simp_all add: broadcastSignal_send_where)

lemma broadcastPosition_fields [simp]:
  "users (broadcastPosition p a st) = users st"
  "signals (broadcastPosition p a st) = signals st"
  "positions (broadcastPosition p a st) = positions st"
  "activeConnections (broadcastPosition p a st) = activeConnections st"
  "readyState (sockets (broadcastPosition p a st) v) = readyState (sockets st v)"
  "closeListener (sockets (broadcastPosition p a st) v) = closeListener (sockets st v)"
  by (simp_all add: broadcastPosition_send_where)

lemma broadcastSignal_sent_absent:
  "v \<notin> fst ` set (activeConnections st) \<Longrightarrow>
   sent (sockets (broadcastSignal sg st) v) = sent (sockets st v)"
  by (simp add: broadcastSignal_send_where send_where_sent concat_absent_key)

lemma broadcastPosition_sent_absent:
  "v \<notin> fst ` set (activeConnections st) \<Longrightarrow>
   sent (sockets (broadcastPosition p a st) v) = sent (sockets st v)"
  by (simp add: broadcastPosition_send_where send_where_sent concat_absent_key)

lemma ws_close_fields [simp]:
  "users (ws_close w st) = users st"
  "signals (ws_close w st) = signals st"
  "positions (ws_close w st) = positions st"
  "activeConnections (ws_close w st) = activeConnections st"
  "sent (sockets (ws_close w st) v) = sent (sockets st v)"
  "closeListener (sockets (ws_close w st) v) = closeListener (sockets st v)"
  by (simp_all add: ws_close_def)

lemma login_check_fields:
  "snd (login_check env t a pw u st) = st"
  by (simp add: login_check_def split: sum.splits option.splits)

lemma login_finish_fields [simp]:
  "signals (snd (login_finish env t now p st)) = signals st"
  "positions (snd (login_finish env t now p st)) = positions st"
  "activeConnections (snd (login_finish env t now p st)) = activeConnections st"
  "sockets (snd (login_finish env t now p st)) = sockets st"
  by (simp_all add: login_finish_def login_check_fields Let_def
        split: sum.splits option.splits)

lemma authenticated_cases:
  "authenticated env t h f st = (r, st') \<Longrightarrow>
   (st' = st \<and> (\<exists>e. authenticateToken env t h = Inl e)) \<or>
   (\<exists>u. authenticateToken env t h = Inr u \<and> f u st = (r, st'))"
  by (auto simp: authenticated_def split: sum.splits)

lemma snd_authenticated:
  "snd (authenticated env t h f st) = st \<or>
   (\<exists>u. authenticateToken env t h = Inr u \<and> snd (authenticated env t h f st) = snd (f u st))"
  by (auto simp: authenticated_def split: sum.splits)

lemma get_signals_state [simp]: "snd (get_signals clk u st) = st"
  by (simp add: get_signals_def)

lemma get_positions_state [simp]: "snd (get_positions u st) = st"
  by (simp add: get_positions_def)

lemma post_signals_fields [simp]:
  "users (snd (post_signals env n1 n2 b st)) = users st"
  "positions (snd (post_signals env n1 n2 b st)) = positions st"
  "activeConnections (snd (post_signals env n1 n2 b st)) = activeConnections st"
  "readyState (sockets (snd (post_signals env n1 n2 b st)) v) = readyState (sockets st v)"
  "closeListener (sockets (snd (post_signals env n1 n2 b st)) v) = closeListener (sockets st v)"
  by (simp_all add: post_signals_def split: sum.splits prod.splits)

lemma post_signals_sent_absent:
  "v \<notin> fst ` set (activeConnections st) \<Longrightarrow>
   sent (sockets (snd (post_signals env n1 n2 b st)) v) = sent (sockets st v)"
  by (simp add: post_signals_def broadcastSignal_sent_absent split: sum.splits prod.splits)

lemma post_trade_open_fields [simp]:
  "users (snd (post_trade_open n1 n2 b u st)) = users st"
  "signals (snd (post_trade_open n1 n2 b u st)) = signals st"
  "activeConnections (snd (post_trade_open n1 n2 b u st)) = activeConnections st"
  "readyState (sockets (snd (post_trade_open n1 n2 b u st)) v) = readyState (sockets st v)"
  "closeListener (sockets (snd (post_trade_open n1 n2 b u st)) v) = closeListener (sockets st v)"
  by (simp_all add: post_trade_open_def split: sum.splits)

lemma post_trade_open_sent_absent:
  "v \<notin> fst ` set (activeConnections st) \<Longrightarrow>
   sent (sockets (snd (post_trade_open n1 n2 b u st)) v) = sent (sockets st v)"
  by (simp add: post_trade_open_def broadcastPosition_sent_absent split: sum.splits)

lemma post_trade_close_fields [simp]:
  "users (snd (post_trade_close pid u st)) = users st"
  "signals (snd (post_trade_close pid u st)) = signals st"
  "activeConnections (snd (post_trade_close pid u st)) = activeConnections st"
  "sockets (snd (post_trade_close pid u st)) = sockets st"
  by (simp_all add: post_trade_close_def split: option.splits)

lemma tick_loop_fields [simp]:
  "users (tick_loop conv rnd i ps st) = users st"
  "signals (tick_loop conv rnd i ps st) = signals st"
  "activeConnections (tick_loop conv rnd i ps st) = activeConnections st"
  "readyState (sockets (tick_loop conv rnd i ps st) v) = readyState (sockets st v)"
  "closeListener (sockets (tick_loop conv rnd i ps st) v) = closeListener (sockets st v)"
  by (induction conv rnd i ps st rule: tick_loop.induct; simp add: Let_def)+

lemma tick_loop_sent_absent:
  "v \<notin> fst ` set (activeConnections st) \<Longrightarrow>
   sent (sockets (tick_loop conv rnd i ps st) v) = sent (sockets st v)"
  by (induction conv rnd i ps st rule: tick_loop.induct)
     (simp_all add: Let_def broadcastPosition_sent_absent)

lemma on_connection_fields [simp]:
  "users (on_connection env t w tok st) = users st"
  "signals (on_connection env t w tok st) = signals st"
  "positions (on_connection env t w tok st) = positions st"
  by (simp_all add: on_connection_def Let_def split: option.splits)

lemma ws_connect_fields [simp]:
  "users (ws_connect env t w tok st) = users st"
  "signals (ws_connect env t w tok st) = signals st"
  "positions (ws_connect env t w tok st) = positions st"
  by (simp_all add: ws_connect_def)

lemma ws_closed_fields [simp]:
  "users (ws_closed w st) = users st"
  "signals (ws_closed w st) = signals st"
  "positions (ws_closed w st) = positions st"
  "sent (sockets (ws_closed w st) v) = sent (sockets st v)"
  by (simp_all add: ws_closed_def Let_def)

section \<open>The gateway\<close>

lemma run_Nil [simp]: "run env [] st = st"
  by (simp add: run_def)

lemma run_Cons [simp]: "run env (ev # evs) st = run env evs (step env ev st)"
  by (simp add: run_def)

lemma run_append: "run env (xs @ ys) st = run env ys (run env xs st)"
  by (simp add: run_def)

lemma on_connection_rejected:
  "handshake_fails env t token \<Longrightarrow> on_connection env t w token st = ws_close w st"
  by (auto simp: handshake_fails_def on_connection_def split: option.splits)

lemma on_connection_other:
  "w' \<noteq> w \<Longrightarrow>
   sent (sockets (on_connection env t w' token st) w) = sent (sockets st w) \<and>
   (w \<in> fst ` set (activeConnections (on_connection env t w' token st)) \<longleftrightarrow>
    w \<in> fst ` set (activeConnections st))"
  by (auto simp: on_connection_def Let_def ws_send_def AList.dom_update split: option.splits)

lemma ws_closed_registry:
  "w \<notin> fst ` set (activeConnections st) \<Longrightarrow>
   w \<notin> fst ` set (activeConnections (ws_closed v st))"
  by (auto simp: ws_closed_def Let_def AList.delete_eq)

lemma step_unregistered:
  assumes "w \<notin> fst ` set (activeConnections st)"
    and "rejected_handshakes env w [ev]"
  shows "w \<notin> fst ` set (activeConnections (step env ev st)) \<and>
         sent (sockets (step env ev st) w) = sent (sockets st w)"
proof (cases ev)
  case (LoginResumed t now p)
  with assms show ?thesis by simp
next
  case (GetSignals t h clk)
  with assms snd_authenticated [of env t h "get_signals clk" st] show ?thesis by auto
next
  case (PostSignals n1 n2 b)
  with assms show ?thesis by (simp add: post_signals_sent_absent)
next
  case (GetPositions t h)
  with assms snd_authenticated [of env t h get_positions st] show ?thesis by auto
next
  case (PostTradeOpen t h n1 n2 b)
  with assms snd_authenticated [of env t h "post_trade_open n1 n2 b" st] show ?thesis
    by (auto simp: post_trade_open_sent_absent)
next
  case (PostTradeClose t h pid)
  with assms snd_authenticated [of env t h "post_trade_close pid" st] show ?thesis by auto
next
  case (WsConnection t w' token)
  show ?thesis
  proof (cases "w' = w")
    case True
    with assms WsConnection show ?thesis
      by (simp add: ws_connect_def on_connection_rejected)
  next
    case False
    with assms WsConnection on_connection_other [OF False, of env t token] show ?thesis
      by (simp add: ws_connect_def)
  qed
next
  case (WsClosed v)
  with assms show ?thesis by (simp add: ws_closed_registry)
next
  case (Tick rnd)
  with assms show ?thesis by (simp add: tick_def tick_loop_sent_absent)
qed

lemma rejected_handshakes_Cons:
  "rejected_handshakes env w (ev # evs) \<longleftrightarrow>
   rejected_handshakes env w [ev] \<and> rejected_handshakes env w evs"
  by (cases ev) auto

lemma rejected_handshakes_take:
  "rejected_handshakes env w evs \<Longrightarrow> rejected_handshakes env w (take n evs)"
proof (induction evs arbitrary: n)
  case Nil
  then show ?case by simp
next
  case (Cons ev evs)
  show ?case
  proof (cases n)
    case 0
    then show ?thesis by simp
  next
    case (Suc m)
    with Cons show ?thesis
      using rejected_handshakes_Cons [of env w ev evs]
            rejected_handshakes_Cons [of env w ev "take m evs"] by simp
  qed
qed

lemma run_unregistered:
  assumes "w \<notin> fst ` set (activeConnections st)"
    and "rejected_handshakes env w evs"
  shows "w \<notin> fst ` set (activeConnections (run env evs st)) \<and>
         sent (sockets (run env evs st) w) = sent (sockets st w)"
  using assms
proof (induction evs arbitrary: st)
  case Nil
  then show ?case by simp
next
  case (Cons ev evs)
  from Cons.prems(2) have one: "rejected_handshakes env w [ev]"
    and rest: "rejected_handshakes env w evs"
    using rejected_handshakes_Cons [of env w ev evs] by simp_all
  from step_unregistered [OF Cons.prems(1) one]
  have a: "w \<notin> fst ` set (activeConnections (step env ev st))"
    and b: "sent (sockets (step env ev st) w) = sent (sockets st w)" by simp_all
  from Cons.IH [OF a rest] b show ?case by simp
qed

text \<open>
  C2. In every run of the server, from a state in which the socket \<open>w\<close> is not
  registered: when every handshake of \<open>w\<close> carries no token or a token that fails
  verification, then at every point of the run \<open>w\<close> is absent from
  \<open>activeConnections\<close> and no message, so no broadcast event, has been sent to it.
\<close>

theorem rejected_connection_never_registered:
  assumes "w \<notin> fst ` set (activeConnections st)"
    and "rejected_handshakes env w evs"
  shows "\<forall>n. w \<notin> fst ` set (activeConnections (run env (take n evs) st)) \<and>
             sent (sockets (run env (take n evs) st) w) = sent (sockets st w)"
  using run_unregistered [OF assms(1) rejected_handshakes_take [OF assms(2)]] by blast

theorem rejected_connection_never_registered_witness:
  "2 \<notin> fst ` set (activeConnections init_state) \<and>
   rejected_handshakes example_env 2 example_run \<and>
   3 \<notin> fst ` set (activeConnections init_state) \<and>
   rejected_handshakes example_env 3 example_run \<and>
   2 \<notin> fst ` set (activeConnections (run example_env (take 6 example_run) init_state)) \<and>
   sent (sockets (run example_env (take 6 example_run) init_state) 2) = [] \<and>
   3 \<notin> fst ` set (activeConnections (run example_env (take 6 example_run) init_state)) \<and>
   sent (sockets (run example_env (take 6 example_run) init_state) 3) = []"
proof -
  have a2: "2 \<notin> fst ` set (activeConnections init_state)"
    and a3: "3 \<notin> fst ` set (activeConnections init_state)"
    by (simp_all add: init_state_def)
  have b2: "rejected_handshakes example_env 2 example_run"
    and b3: "rejected_handshakes example_env 3 example_run"
    by (simp_all add: example_run_def handshake_fails_def example_env_def)
  have e: "sent (sockets init_state 2) = []" "sent (sockets init_state 3) = []"
    by (simp_all add: init_state_def)
  from rejected_connection_never_registered [OF a2 b2, THEN spec, of 6]
    rejected_connection_never_registered [OF a3 b3, THEN spec, of 6] a2 a3 b2 b3 e
  show ?thesis by simp
qed

section \<open>The signal sequence\<close>

lemma push_signal_length: "length xs \<le> 50 \<Longrightarrow> length (push_signal s xs) \<le> 50"
  by (simp add: push_signal_def Let_def)

lemma post_signals_signals:
  "signals (snd (post_signals env n1 n2 b st)) = signals st \<or>
   (\<exists>s. signals (snd (post_signals env n1 n2 b st)) = push_signal s (signals st))"
  by (auto simp: post_signals_def split: sum.splits prod.splits)

lemma step_signals_length:
  assumes "length (signals st) \<le> 50"
  shows "length (signals (step env ev st)) \<le> 50"
proof (cases ev)
  case (PostSignals n1 n2 b)
  with assms post_signals_signals [of env n1 n2 b st] show ?thesis
    by (auto simp: push_signal_length)
next
  case (GetSignals t h clk)
  with assms snd_authenticated [of env t h "get_signals clk" st] show ?thesis by auto
next
  case (GetPositions t h)
  with assms snd_authenticated [of env t h get_positions st] show ?thesis by auto
next
  case (PostTradeOpen t h n1 n2 b)
  with assms snd_authenticated [of env t h "post_trade_open n1 n2 b" st] show ?thesis by auto
next
  case (PostTradeClose t h pid)
  with assms snd_authenticated [of env t h "post_trade_close pid" st] show ?thesis by auto
qed (use assms in \<open>simp_all add: tick_def\<close>)

lemma run_signals_length:
  "length (signals st) \<le> 50 \<Longrightarrow> length (signals (run env evs st)) \<le> 50"
  by (induction evs arbitrary: st) (simp_all add: step_signals_length)

lemma new_signal_Inr:
  "new_signal sg n1 n2 = Inr s \<Longrightarrow> sig_id s = to_string n1 \<and> sig_timestamp s = n2"
  by (auto simp: new_signal_def bind_err_def split: sum.splits)

lemma post_signals_accepted:
  assumes "post_signals env n1 n2 b st = (Response 200 (SignalAccepted i), st')"
  shows "\<exists>s. sig_id s = i \<and> sig_timestamp s = n2 \<and> signals st' = push_signal s (signals st)"
  using assms
  by (auto simp: post_signals_def signal_failed_def dest: new_signal_Inr
        split: sum.splits prod.splits if_splits)

text \<open>
  C3. In every run from the initial state the signal sequence holds at most 50 entries.
  An accepted ingestion request appends its signal; when 50 are held already (the new
  one is the 51st), the signal at the front, the oldest, is removed.
\<close>

theorem signals_bounded_fifo:
  "length (signals (run env evs init_state)) \<le> 50 \<and>
   (post_signals env now1 now2 b st = (Response 200 (SignalAccepted i), st') \<and>
    length (signals st) = 50 \<longrightarrow>
      (\<exists>s. sig_id s = i \<and> sig_timestamp s = now2 \<and> signals st' = tl (signals st) @ [s])) \<and>
   (post_signals env now1 now2 b st = (Response 200 (SignalAccepted i), st') \<and>
    length (signals st) < 50 \<longrightarrow>
      (\<exists>s. sig_id s = i \<and> sig_timestamp s = now2 \<and> signals st' = signals st @ [s]))"
proof (intro conjI impI)
  show "length (signals (run env evs init_state)) \<le> 50"
    by (rule run_signals_length) (simp add: init_state_def)
next
  assume a: "post_signals env now1 now2 b st = (Response 200 (SignalAccepted i), st') \<and>
             length (signals st) = 50"
  then obtain s where s: "sig_id s = i" "sig_timestamp s = now2"
      "signals st' = push_signal s (signals st)"
    using post_signals_accepted by blast
  from a have "signals st \<noteq> []" by auto
  with a s show "\<exists>s. sig_id s = i \<and> sig_timestamp s = now2 \<and> signals st' = tl (signals st) @ [s]"
    by (auto simp: push_signal_def Let_def)
next
  assume a: "post_signals env now1 now2 b st = (Response 200 (SignalAccepted i), st') \<and>
             length (signals st) < 50"
  then obtain s where s: "sig_id s = i" "sig_timestamp s = now2"
      "signals st' = push_signal s (signals st)"
    using post_signals_accepted by blast
  with a show "\<exists>s. sig_id s = i \<and> sig_timestamp s = now2 \<and> signals st' = signals st @ [s]"
    by (auto simp: push_signal_def Let_def)
qed

theorem signals_bounded_fifo_witness:
  "post_signals example_env 5000000 5000001 example_signal_body full_state =
     (Response 200 (SignalAccepted ''5000000''),
      snd (post_signals example_env 5000000 5000001 example_signal_body full_state)) \<and>
   length (signals full_state) = 50 \<and>
   (\<exists>s. sig_id s = ''5000000'' \<and> sig_timestamp s = 5000001 \<and>
        signals (snd (post_signals example_env 5000000 5000001 example_signal_body full_state)) =
          replicate 49 newer_signal @ [s])"
proof -
  have r: "post_signals example_env 5000000 5000001 example_signal_body full_state =
     (Response 200 (SignalAccepted ''5000000''),
      snd (post_signals example_env 5000000 5000001 example_signal_body full_state))"
    by (simp add: post_signals_def example_signal_body_def example_env_def bind_err_def
          new_signal_def strict_eq_def to_string_def digits.simps digit_char_def)
  have l: "length (signals full_state) = 50"
    by (simp add: full_state_def)
  from signals_bounded_fifo [of example_env "[]" 5000000 5000001 example_signal_body full_state
      "''5000000''" "snd (post_signals example_env 5000000 5000001 example_signal_body full_state)"]
    r l
  show ?thesis by (simp add: full_state_def)
qed

lemma recent_nths:
  "recent clk i xs = nths xs {j. clk (i + j) - sig_timestamp (xs ! j) < 3600000}"
proof (induction xs arbitrary: i)
  case Nil
  show ?case by simp
next
  case (Cons x xs)
  show ?case by (simp add: nths_Cons Cons.IH)
qed

lemma recent_const:
  "recent (\<lambda>i. now) i xs = filter (\<lambda>s. now - sig_timestamp s < 3600000) xs"
  by (induction xs arbitrary: i) simp_all

text \<open>
  C6. An authenticated read of \<open>GET /api/signals\<close> answers with the signals, in
  order, for which the clock reading minus the timestamp is below 3,600,000 ms: the
  signal at index \<open>i\<close> is included exactly when this holds for the reading made when
  it is examined, and when the clock shows \<open>now\<close> throughout the read, a signal is
  included exactly when \<open>now - timestamp < 3600000\<close>.
\<close>

theorem get_signals_recent:
  assumes "authenticateToken env t h = Inr u"
  shows "authenticated env t h (get_signals clk) st =
           (Response 200 (SignalsBody
              (nths (signals st) {i. clk i - sig_timestamp (signals st ! i) < 3600000})), st) \<and>
         authenticated env t h (get_signals (\<lambda>i. now)) st =
           (Response 200 (SignalsBody
              (filter (\<lambda>s. now - sig_timestamp s < 3600000) (signals st))), st)"
proof
  show "authenticated env t h (get_signals clk) st =
          (Response 200 (SignalsBody
             (nths (signals st) {i. clk i - sig_timestamp (signals st ! i) < 3600000})), st)"
    using assms by (simp add: authenticated_def get_signals_def recent_nths)
  show "authenticated env t h (get_signals (\<lambda>i. now)) st =
          (Response 200 (SignalsBody
             (filter (\<lambda>s. now - sig_timestamp s < 3600000) (signals st))), st)"
    using assms by (simp add: authenticated_def get_signals_def recent_const)
qed

theorem get_signals_recent_witness:
  "authenticateToken example_env 0 (Some ''Bearer jwt.A'') = Inr alice \<and>
   authenticated example_env 0 (Some ''Bearer jwt.A'') (get_signals (\<lambda>i. 5000000)) full_state =
     (Response 200 (SignalsBody (replicate 49 newer_signal)), full_state)"
proof -
  have a: "authenticateToken example_env 0 (Some ''Bearer jwt.A'') = Inr alice"
    by (simp add: authenticateToken_def example_env_def alice_def)
  from get_signals_recent [OF a, of "\<lambda>i. 0" full_state 5000000] a
  show ?thesis
    by (simp add: full_state_def old_signal_def newer_signal_def)
qed

text \<open>
  What the gateway does with a token that verifies. When the account number of the
  token converts to a string, the socket is bound to the decoded identity and is sent
  exactly one message, the snapshot of the last 10 signals (all of them when fewer
  exist), and the \<open>close\<close> listener is attached. When it does not, the log line
  throws after the registration: the socket stays registered and is closed.
\<close>

lemma admitted_connection_snapshot:
  assumes "tk \<noteq> []" and "JWT_verify env t tk = Some decoded"
    and "stringifiable (accountNumber decoded)"
  shows "map_of (activeConnections (on_connection env t w (Some tk) st)) w = Some decoded \<and>
         sent (sockets (on_connection env t w (Some tk) st) w) =
           sent (sockets st w) @ [InitMsg (drop (length (signals st) - 10) (signals st))] \<and>
         length (drop (length (signals st) - 10) (signals st)) = min 10 (length (signals st)) \<and>
         closeListener (sockets (on_connection env t w (Some tk) st) w) \<and>
         (\<forall>v. v \<noteq> w \<longrightarrow>
            sent (sockets (on_connection env t w (Some tk) st) v) = sent (sockets st v) \<and>
            map_of (activeConnections (on_connection env t w (Some tk) st)) v =
              map_of (activeConnections st) v)"
  using assms
  by (auto simp: on_connection_def Let_def slice_last_def AList.update_conv' ws_send_def)

lemma unprintable_account_connection:
  assumes "tk \<noteq> []" and "JWT_verify env t tk = Some decoded"
    and "\<not> stringifiable (accountNumber decoded)"
  shows "on_connection env t w (Some tk) st =
           ws_close w (st\<lparr>activeConnections := AList.update w decoded (activeConnections st)\<rparr>)"
  using assms by (simp add: on_connection_def Let_def)

text \<open>
  C7. A connection whose token verifies is to be registered with its decoded identity
  and then sent exactly one initial snapshot. The server signs a token for the account
  number \<open>{"toString": 0}\<close> at the login; with that token the handshake registers
  the socket and then fails in its log line: no snapshot is sent, the socket is closed,
  no \<open>close\<close> listener is attached, and the entry is still in the registry after
  the transport has closed.
\<close>

theorem unprintable_account_no_snapshot:
  "login_begin odd_login init_state =
     Inr \<lparr>pl_accountNumber = accountNumber odd_identity, pl_password = JStr ''pw'',
          pl_user = None\<rparr> \<and>
   fst (login_finish odd_env 0 0
          \<lparr>pl_accountNumber = accountNumber odd_identity, pl_password = JStr ''pw'',
           pl_user = None\<rparr> init_state) =
     Response 200 (LoginBody ''jwt#odd'' (accountNumber odd_identity) ''Demo'') \<and>
   JWT_verify odd_env 0 ''jwt#odd'' = Some odd_identity \<and>
   activeConnections (ws_connect odd_env 0 7 (Some ''jwt#odd'') init_state) = [(7, odd_identity)] \<and>
   sent (sockets (ws_connect odd_env 0 7 (Some ''jwt#odd'') init_state) 7) = [] \<and>
   readyState (sockets (ws_connect odd_env 0 7 (Some ''jwt#odd'') init_state) 7) = CLOSING \<and>
   closeListener (sockets (ws_connect odd_env 0 7 (Some ''jwt#odd'') init_state) 7) = False \<and>
   activeConnections (ws_closed 7 (ws_connect odd_env 0 7 (Some ''jwt#odd'') init_state)) =
     [(7, odd_identity)]"
proof -
  have v: "JWT_verify odd_env 0 ''jwt#odd'' = Some odd_identity"
    by (simp add: odd_env_def)
  have n: "\<not> stringifiable (accountNumber odd_identity)"
    by (simp add: odd_identity_def)
  have c: "ws_connect odd_env 0 7 (Some ''jwt#odd'') init_state =
      ws_close 7 (init_state\<lparr>activeConnections := [(7, odd_identity)],
        sockets := (sockets init_state)(7 := (sockets init_state 7)\<lparr>readyState := OPEN\<rparr>)\<rparr>)"
    using v n by (simp add: ws_connect_def on_connection_def Let_def init_state_def)
  have b: "login_begin odd_login init_state =
     Inr \<lparr>pl_accountNumber = accountNumber odd_identity, pl_password = JStr ''pw'',
          pl_user = None\<rparr>"
    by (simp add: login_begin_def odd_login_def odd_identity_def bind_err_def users_get_def)
  have f: "fst (login_finish odd_env 0 0
          \<lparr>pl_accountNumber = accountNumber odd_identity, pl_password = JStr ''pw'',
           pl_user = None\<rparr> init_state) =
     Response 200 (LoginBody ''jwt#odd'' (accountNumber odd_identity) ''Demo'')"
    by (simp add: login_finish_def hash_password_def login_check_def compare_password_def
          odd_env_def example_env_def odd_identity_def Let_def)
  show ?thesis
    unfolding c using v b f
    by (simp add: ws_close_def ws_closed_def init_state_def Let_def)
qed

section \<open>The position mapping\<close>

lemma tick_loop_positions:
  "ps = drop i (positions st) \<Longrightarrow>
   positions (tick_loop conv rnd i ps st) =
     take i (positions st) @
     map (\<lambda>(j, (k, p)). (k, tick_position conv (rnd j) p)) (zip [i..<length (positions st)] ps)"
proof (induction ps arbitrary: i st)
  case Nil
  then show ?case by simp
next
  case (Cons kp rest)
  obtain k p where kp: "kp = (k, p)" by (cases kp)
  let ?xs = "positions st"
  from Cons.prems have i: "i < length ?xs"
    by (metis drop_all list.distinct(1) not_le_imp_less)
  from Cons.prems kp i have at: "?xs ! i = (k, p)" and rest: "rest = drop (Suc i) ?xs"
    by (simp_all add: Cons_nth_drop_Suc [symmetric])
  let ?p' = "tick_position conv (rnd i) p"
  let ?st2 = "broadcastPosition ?p' (pos_accountNumber ?p') (st\<lparr>positions := ?xs[i := (k, ?p')]\<rparr>)"
  have pos2: "positions ?st2 = ?xs[i := (k, ?p')]" by simp
  have "rest = drop (Suc i) (positions ?st2)"
    using rest by (simp add: drop_update_cancel)
  from Cons.IH [OF this]
  have "positions (tick_loop conv rnd (Suc i) rest ?st2) =
          take (Suc i) (?xs[i := (k, ?p')]) @
          map (\<lambda>(j, (k, p)). (k, tick_position conv (rnd j) p)) (zip [Suc i..<length ?xs] rest)"
    by simp
  moreover have "take (Suc i) (?xs[i := (k, ?p')]) = take i ?xs @ [(k, ?p')]"
    using i by (simp add: take_Suc_conv_app_nth)
  moreover have "[i..<length ?xs] = i # [Suc i..<length ?xs]"
    using i by (simp add: upt_conv_Cons)
  ultimately show ?case
    by (simp add: kp Let_def)
qed

lemma tick_positions:
  "positions (tick env rnd st) =
     map (\<lambda>(j, (k, p)). (k, tick_position (string_to_number env) (rnd j) p))
         (zip [0..<length (positions st)] (positions st))"
  by (simp add: tick_def tick_loop_positions)

lemma tick_positions_nth:
  assumes "j < length (positions st)"
  shows "positions (tick env rnd st) ! j =
           (fst (positions st ! j),
            tick_position (string_to_number env) (rnd j) (snd (positions st ! j)))"
  using assms by (simp add: tick_positions case_prod_unfold)

lemma tick_position_fields [simp]:
  "pos_id (tick_position conv r p) = pos_id p"
  "pos_accountNumber (tick_position conv r p) = pos_accountNumber p"
  "pos_type (tick_position conv r p) = pos_type p"
  "lots (tick_position conv r p) = lots p"
  "entryPrice (tick_position conv r p) = entryPrice p"
  by (simp_all add: tick_position_def Let_def)


lemma tick_positions_keyed:
  "positions_keyed st \<Longrightarrow> positions_keyed (tick env rnd st)"
  by (auto simp: positions_keyed_def list_all_length tick_positions case_prod_unfold)

lemma new_position_Inr:
  "new_position b a n1 n2 = Inr p \<Longrightarrow>
   pos_id p = to_string n1 \<and> pos_accountNumber p = a \<and> openTime p = n2 \<and>
   stringifiable (lots p) \<and> stringifiable a"
  by (auto simp: new_position_def bind_err_def split: sum.splits if_splits)

lemma post_trade_open_positions:
  "positions (snd (post_trade_open n1 n2 b u st)) = positions st \<or>
   (\<exists>p. pos_id p = to_string n1 \<and>
        positions (snd (post_trade_open n1 n2 b u st)) = AList.update (to_string n1) p (positions st))"
proof (cases "new_position b (accountNumber u) n1 n2")
  case (Inl e)
  then show ?thesis by (simp add: post_trade_open_def)
next
  case (Inr p)
  from new_position_Inr [OF Inr] have "pos_id p = to_string n1" by simp
  with Inr show ?thesis by (auto simp: post_trade_open_def)
qed

lemma post_trade_close_positions:
  "positions (snd (post_trade_close pid u st)) = positions st \<or>
   positions (snd (post_trade_close pid u st)) = AList.delete pid (positions st)"
  by (auto simp: post_trade_close_def split: option.splits)

lemma keyed_update:
  "list_all (\<lambda>(k, p). pos_id p = k) al \<Longrightarrow> pos_id p = k \<Longrightarrow>
   list_all (\<lambda>(k, p). pos_id p = k) (AList.update k p al)"
  by (induction al) auto

lemma keyed_delete:
  "list_all (\<lambda>(k, p). pos_id p = k) al \<Longrightarrow>
   list_all (\<lambda>(k, p). pos_id p = k) (AList.delete k al)"
  by (induction al) auto


lemma authenticated_invariant:
  "P st \<Longrightarrow> (\<And>u. P (snd (f u st))) \<Longrightarrow> P (snd (authenticated env t h f st))"
  by (auto simp: authenticated_def split: sum.splits)








subsection \<open>Ids\<close>

lemma digit_value_digit_char: "d < 10 \<Longrightarrow> digit_value (digit_char d) = d"
proof -
  assume "d < 10"
  then have "d \<in> {0, 1, 2, 3, 4, 5, 6, 7, 8, 9}" by auto
  then show ?thesis
    by (auto simp: digit_value_def digit_char_def)
qed

lemma digit_char_not_minus: "d < 10 \<Longrightarrow> digit_char d \<noteq> CHR ''-''"
proof -
  assume "d < 10"
  then have "d \<in> {0, 1, 2, 3, 4, 5, 6, 7, 8, 9}" by auto
  then show ?thesis
    by (auto simp: digit_char_def)
qed

lemma read_nat_append: "read_nat (s @ [c]) = 10 * read_nat s + digit_value c"
  by (simp add: read_nat_def)

lemma read_nat_digits: "read_nat (digits n) = n"
proof (induction n rule: digits.induct)
  case (1 n)
  show ?case
  proof (cases "n < 10")
    case True
    then show ?thesis
      by (simp add: digits.simps [of n] read_nat_def digit_value_digit_char)
  next
    case False
    with 1 have "read_nat (digits (n div 10)) = n div 10" by simp
    with False show ?thesis
      by (simp add: digits.simps [of n] read_nat_append digit_value_digit_char)
  qed
qed

lemma digits_head: "\<exists>c cs. digits n = c # cs \<and> c \<noteq> CHR ''-''"
proof (induction n rule: digits.induct)
  case (1 n)
  show ?case
  proof (cases "n < 10")
    case True
    then show ?thesis
      by (simp add: digits.simps [of n] digit_char_not_minus)
  next
    case False
    with 1 obtain c cs where "digits (n div 10) = c # cs" "c \<noteq> CHR ''-''" by blast
    with False show ?thesis
      by (simp add: digits.simps [of n])
  qed
qed

text \<open>The id is the decimal numeral of the clock reading, and the reading can be read back.\<close>

lemma read_int_to_string: "read_int (to_string i) = i"
proof (cases "i < 0")
  case True
  then show ?thesis
    by (simp add: to_string_def read_nat_digits)
next
  case False
  obtain c cs where d: "digits (nat i) = c # cs" "c \<noteq> CHR ''-''"
    using digits_head by blast
  from d have "read_int (digits (nat i)) = int (read_nat (digits (nat i)))"
    by simp
  with False show ?thesis
    by (simp add: to_string_def read_nat_digits)
qed

lemma to_string_inject: "to_string i = to_string j \<longleftrightarrow> i = j"
  by (metis read_int_to_string)

lemma post_trade_open_accepted:
  assumes "post_trade_open n1 n2 b u st = (Response 200 (TradeOpened i), st')"
  shows "\<exists>p. new_position b (accountNumber u) n1 n2 = Inr p \<and> i = to_string n1 \<and>
             pos_id p = to_string n1 \<and>
             positions st' = AList.update (to_string n1) p (positions st)"
proof (cases "new_position b (accountNumber u) n1 n2")
  case (Inl e)
  with assms show ?thesis by (simp add: post_trade_open_def trade_failed_def)
next
  case (Inr p)
  from new_position_Inr [OF Inr] have "pos_id p = to_string n1" by simp
  with Inr assms show ?thesis by (auto simp: post_trade_open_def)
qed

lemma last_push_signal: "last (push_signal s xs) = s \<and> push_signal s xs \<noteq> []"
proof (cases "50 < length (xs @ [s])")
  case True
  then have "tl (xs @ [s]) \<noteq> []" by (cases xs) auto
  with True show ?thesis
    by (simp add: push_signal_def Let_def last_tl)
next
  case False
  then show ?thesis by (simp add: push_signal_def Let_def)
qed

text \<open>
  C10. The id of a signal and the id of a position are \<open>Date.now().toString()\<close> as
  read when they are created: the decimal numeral of the reading, from which the
  reading is read back. Two accepted open requests get the same id exactly when their
  readings are equal, and then the second position replaces the first in the mapping,
  which keeps a single entry for the id.
\<close>

theorem ids_are_clock_readings:
  "(post_signals env now now2 b st = (Response 200 (SignalAccepted i), st') \<longrightarrow>
      i = to_string now \<and> read_int i = now \<and>
      signals st' \<noteq> [] \<and> sig_id (last (signals st')) = i) \<and>
   (post_trade_open now n b1 u1 st = (Response 200 (TradeOpened i1), st1) \<and>
    post_trade_open now' n' b2 u2 st1 = (Response 200 (TradeOpened i2), st2) \<longrightarrow>
      i1 = to_string now \<and> read_int i1 = now \<and>
      i2 = to_string now' \<and> read_int i2 = now' \<and>
      (i2 = i1 \<longleftrightarrow> now' = now) \<and>
      (\<exists>p1 p2. new_position b1 (accountNumber u1) now n = Inr p1 \<and>
               new_position b2 (accountNumber u2) now' n' = Inr p2 \<and>
               pos_id p1 = i1 \<and> pos_id p2 = i2 \<and>
               map_of (positions st1) i1 = Some p1 \<and>
               map_of (positions st2) i2 = Some p2 \<and>
               (now' = now \<longrightarrow>
                  map fst (positions st2) = map fst (positions st1) \<and>
                  map_of (positions st2) i1 = Some p2)))"
proof (intro conjI impI)
  assume a: "post_signals env now now2 b st = (Response 200 (SignalAccepted i), st')"
  from post_signals_accepted [OF a] obtain s where
    s: "sig_id s = i" "signals st' = push_signal s (signals st)" by blast
  from a have i: "i = to_string now"
    by (auto simp: post_signals_def signal_failed_def dest: new_signal_Inr
        split: sum.splits prod.splits if_splits)
  show "i = to_string now" by (rule i)
  show "read_int i = now" by (simp add: i read_int_to_string)
  show "signals st' \<noteq> []" by (simp add: s(2) last_push_signal)
  show "sig_id (last (signals st')) = i" by (simp add: s last_push_signal)
next
  assume a: "post_trade_open now n b1 u1 st = (Response 200 (TradeOpened i1), st1) \<and>
             post_trade_open now' n' b2 u2 st1 = (Response 200 (TradeOpened i2), st2)"
  from a post_trade_open_accepted [of now n b1 u1 st i1 st1]
  obtain p1 where p1: "new_position b1 (accountNumber u1) now n = Inr p1" "i1 = to_string now"
      "pos_id p1 = to_string now"
      "positions st1 = AList.update (to_string now) p1 (positions st)"
    by blast
  from a post_trade_open_accepted [of now' n' b2 u2 st1 i2 st2]
  obtain p2 where p2: "new_position b2 (accountNumber u2) now' n' = Inr p2" "i2 = to_string now'"
      "pos_id p2 = to_string now'"
      "positions st2 = AList.update (to_string now') p2 (positions st1)"
    by blast
  show "i1 = to_string now" by (rule p1(2))
  show "read_int i1 = now" by (simp add: p1(2) read_int_to_string)
  show "i2 = to_string now'" by (rule p2(2))
  show "read_int i2 = now'" by (simp add: p2(2) read_int_to_string)
  show "(i2 = i1) = (now' = now)" by (simp add: p1(2) p2(2) to_string_inject)
  have m1: "map_of (positions st1) i1 = Some p1" and m2: "map_of (positions st2) i2 = Some p2"
    by (simp_all add: p1(2,4) p2(2,4) AList.update_conv')
  have same: "map fst (positions st2) = map fst (positions st1) \<and>
              map_of (positions st2) i1 = Some p2" if "now' = now"
  proof -
    have "to_string now \<in> set (map fst (positions st1))"
      unfolding p1(4) by (simp add: AList.update_keys)
    then show ?thesis
      unfolding p2(4) that p1(2) by (simp add: AList.update_keys AList.update_conv')
  qed
  from p1 p2 m1 m2 same
  show "\<exists>p1 p2. new_position b1 (accountNumber u1) now n = Inr p1 \<and>
               new_position b2 (accountNumber u2) now' n' = Inr p2 \<and>
               pos_id p1 = i1 \<and> pos_id p2 = i2 \<and>
               map_of (positions st1) i1 = Some p1 \<and>
               map_of (positions st2) i2 = Some p2 \<and>
               (now' = now \<longrightarrow>
                  map fst (positions st2) = map fst (positions st1) \<and>
                  map_of (positions st2) i1 = Some p2)"
    by auto
qed

theorem ids_are_clock_readings_witness:
  "post_trade_open 1700000000000 1700000000000 buy_order alice init_state =
     (Response 200 (TradeOpened ''1700000000000''), same_ms_state) \<and>
   post_trade_open 1700000000000 1700000000001 sell_order bob same_ms_state =
     (Response 200 (TradeOpened ''1700000000000''),
      snd (post_trade_open 1700000000000 1700000000001 sell_order bob same_ms_state)) \<and>
   read_int ''1700000000000'' = 1700000000000 \<and>
   map fst (positions (snd (post_trade_open 1700000000000 1700000000001 sell_order bob
      same_ms_state))) = [''1700000000000''] \<and>
   (\<exists>p1 p2. map_of (positions same_ms_state) ''1700000000000'' = Some p1 \<and>
            pos_accountNumber p1 = JStr ''A'' \<and>
            map_of (positions (snd (post_trade_open 1700000000000 1700000000001 sell_order bob
              same_ms_state))) ''1700000000000'' = Some p2 \<and>
            pos_accountNumber p2 = JStr ''B'')"
proof -
  have ts: "to_string 1700000000000 = ''1700000000000''"
    by (simp add: to_string_def digits.simps digit_char_def)
  have np1: "\<exists>p. new_position buy_order (accountNumber alice) 1700000000000 1700000000000 = Inr p"
    and np2: "\<exists>p. new_position sell_order (accountNumber bob) 1700000000000 1700000000001 = Inr p"
    by (simp_all add: new_position_def buy_order_def sell_order_def bind_err_def alice_def bob_def)
  from np1 obtain q1 where q1: "new_position buy_order (accountNumber alice) 1700000000000
      1700000000000 = Inr q1" by blast
  from np2 obtain q2 where q2: "new_position sell_order (accountNumber bob) 1700000000000
      1700000000001 = Inr q2" by blast
  from new_position_Inr [OF q1] new_position_Inr [OF q2] ts
  have i1: "pos_id q1 = ''1700000000000''" and i2: "pos_id q2 = ''1700000000000''"
    by simp_all
  have r1: "post_trade_open 1700000000000 1700000000000 buy_order alice init_state =
     (Response 200 (TradeOpened ''1700000000000''), same_ms_state)"
    by (simp add: post_trade_open_def same_ms_state_def q1 i1)
  have r2: "post_trade_open 1700000000000 1700000000001 sell_order bob same_ms_state =
     (Response 200 (TradeOpened ''1700000000000''),
      snd (post_trade_open 1700000000000 1700000000001 sell_order bob same_ms_state))"
    by (simp add: post_trade_open_def q2 i2)
  have k1: "map fst (positions same_ms_state) = [''1700000000000'']"
    by (simp add: same_ms_state_def post_trade_open_def init_state_def q1 i1)
  note both = conjI [OF r1 r2]
  from ids_are_clock_readings [where now = 1700000000000 and n = 1700000000000
      and ?b1.0 = buy_order and ?u1.0 = alice and st = init_state
      and ?i1.0 = "''1700000000000''" and ?st1.0 = same_ms_state
      and now' = 1700000000000
      and n' = 1700000000001 and ?b2.0 = sell_order and ?u2.0 = bob
      and ?i2.0 = "''1700000000000''"
      and ?st2.0 = "snd (post_trade_open 1700000000000 1700000000001 sell_order bob same_ms_state)",
      THEN conjunct2, rule_format, OF both, unfolded ts]
  obtain p1 p2 where
    rd: "read_int ''1700000000000'' = 1700000000000"
    and k2: "map fst (positions (snd (post_trade_open 1700000000000 1700000000001 sell_order bob
          same_ms_state))) = map fst (positions same_ms_state)"
    and n1: "new_position buy_order (accountNumber alice) 1700000000000 1700000000000 = Inr p1"
    and n2: "new_position sell_order (accountNumber bob) 1700000000000 1700000000001 = Inr p2"
    and m1: "map_of (positions same_ms_state) ''1700000000000'' = Some p1"
    and m2: "map_of (positions (snd (post_trade_open 1700000000000 1700000000001 sell_order bob
          same_ms_state))) ''1700000000000'' = Some p2"
    by auto
  from new_position_Inr [OF n1] new_position_Inr [OF n2]
  have "pos_accountNumber p1 = JStr ''A''" "pos_accountNumber p2 = JStr ''B''"
    by (simp_all add: alice_def bob_def)
  with r1 r2 k1 k2 m1 m2 rd show ?thesis by auto
qed

section \<open>The ticker\<close>

text \<open>
  The arithmetic of the example of the specification, in binary64: the literal
  \<open>3893.45\<close> is not a binary fraction, and the error of its nearest number, scaled by
  100, stays in the product.
\<close>

lemma entry_literal: "round64 (389345 / 100) = Finite (4280893547164467 / 1099511627776)"
  by code_simp

lemma example_profit:
  "num_mul (num_mul (num_sub (Finite 3900) (round64 (389345 / 100))) (round64 1)) (Finite 100) =
     Finite (655 + 5 / 2 ^ 38)"
  by code_simp

lemma no_change: "num_mul (num_sub (Finite (1 / 2)) (Finite (1 / 2))) (Finite 2) = Finite 0"
  by code_simp

lemma price_stays: "num_add (Finite 3900) (Finite 0) = Finite 3900"
  by code_simp

text \<open>
  C4, as the code has it. On every tick, every position of the mapping keeps its key
  and its entry price, has its current price moved by \<open>(Math.random() - 0.5) * 2\<close>,
  and gets the profit \<open>((current - entry) * lots) * 100\<close> when its type is \<open>'BUY'\<close> and
  \<open>((entry - current) * lots) * 100\<close> otherwise, every operation being the binary64
  one. For a long position with entry \<open>3893.45\<close>, current price \<open>3900\<close> and size 1 the
  profit is \<open>655 + 5 / 2 ^ 38\<close>, which prints as \<open>655.0000000000182\<close>.
\<close>

theorem tick_profit:
  "(\<forall>j < length (positions st).
      fst (positions (tick env rnd st) ! j) = fst (positions st ! j) \<and>
      (let p = snd (positions st ! j); p' = snd (positions (tick env rnd st) ! j)
       in entryPrice p' = entryPrice p \<and>
          currentPrice p' =
            num_add (currentPrice p) (num_mul (num_sub (rnd j) (Finite (1 / 2))) (Finite 2)) \<and>
          profit p' =
            num_mul (num_mul (if strict_eq (pos_type p) (JStr ''BUY'')
                              then num_sub (currentPrice p') (entryPrice p')
                              else num_sub (entryPrice p') (currentPrice p'))
                             (to_number (string_to_number env) (lots p)))
                    (Finite 100))) \<and>
   num_mul (num_mul (num_sub (Finite 3900) (round64 (389345 / 100)))
                    (to_number (string_to_number env) (JNum 1)))
           (Finite 100) = Finite (655 + 5 / 2 ^ 38)"
proof (intro conjI allI impI)
  fix j assume j: "j < length (positions st)"
  show "fst (positions (tick env rnd st) ! j) = fst (positions st ! j)"
    by (simp add: tick_positions_nth [OF j])
  show "let p = snd (positions st ! j); p' = snd (positions (tick env rnd st) ! j)
       in entryPrice p' = entryPrice p \<and>
          currentPrice p' =
            num_add (currentPrice p) (num_mul (num_sub (rnd j) (Finite (1 / 2))) (Finite 2)) \<and>
          profit p' =
            num_mul (num_mul (if strict_eq (pos_type p) (JStr ''BUY'')
                              then num_sub (currentPrice p') (entryPrice p')
                              else num_sub (entryPrice p') (currentPrice p'))
                             (to_number (string_to_number env) (lots p)))
                    (Finite 100)"
    by (simp add: tick_positions_nth [OF j] Let_def tick_position_def)
next
  show "num_mul (num_mul (num_sub (Finite 3900) (round64 (389345 / 100)))
                    (to_number (string_to_number env) (JNum 1)))
           (Finite 100) = Finite (655 + 5 / 2 ^ 38)"
    using example_profit by simp
qed

theorem tick_profit_witness:
  "0 < length (positions example_state) \<and>
   fst (positions (tick example_env (\<lambda>i. Finite (1 / 2)) example_state) ! 0) = ''1700000000000'' \<and>
   profit (snd (positions (tick example_env (\<lambda>i. Finite (1 / 2)) example_state) ! 0)) =
     Finite (655 + 5 / 2 ^ 38)"
proof -
  have l: "0 < length (positions example_state)"
    and p: "positions example_state ! 0 = (''1700000000000'', example_position)"
    by (simp_all add: example_state_def)
  from tick_profit [of example_state example_env "\<lambda>i. Finite (1 / 2)", THEN conjunct1,
      rule_format, OF l] p l example_profit no_change price_stays
  show ?thesis
    by (simp add: Let_def example_position_def strict_eq_def)
qed

text \<open>
  C4 as stated gives that position the profit \<open>655.0\<close>; the ticker stores another
  number.
\<close>

theorem tick_profit_counterexample:
  "pos_type example_position = JStr ''BUY'' \<and>
   lots example_position = JNum 1 \<and>
   entryPrice example_position = round64 (389345 / 100) \<and>
   positions example_state = [(''1700000000000'', example_position)] \<and>
   snd (positions (tick example_env (\<lambda>i. Finite (1 / 2)) example_state) ! 0) =
     example_position\<lparr>currentPrice := Finite 3900, profit := Finite (655 + 5 / 2 ^ 38)\<rparr> \<and>
   Finite (655 + 5 / 2 ^ 38) \<noteq> Finite 655"
proof -
  have "tick_position (string_to_number example_env) (Finite (1 / 2)) example_position =
          example_position\<lparr>currentPrice := Finite 3900, profit := Finite (655 + 5 / 2 ^ 38)\<rparr>"
    using example_profit no_change price_stays
    by (simp add: tick_position_def example_position_def strict_eq_def Let_def)
  moreover have "positions example_state = [(''1700000000000'', example_position)]"
    by (simp add: example_state_def)
  ultimately show ?thesis
    by (simp add: tick_positions example_position_def)
qed

section \<open>Malformed requests\<close>

lemma get_prop_member:
  "v \<noteq> JUndefined \<Longrightarrow> v \<noteq> JNull \<Longrightarrow> get_prop v k = Inr (member v k)"
  by (cases v) (simp_all add: member_def)

lemma new_signal_Inl:
  "(\<exists>e. new_signal sg n1 n2 = Inl e) \<longleftrightarrow> sg = JUndefined \<or> sg = JNull"
  by (cases sg) (simp_all add: new_signal_def bind_err_def)

lemma new_signal_members:
  assumes "sg \<noteq> JUndefined" and "sg \<noteq> JNull"
  shows "new_signal sg n1 n2 =
           Inr \<lparr>sig_id = to_string n1, sig_pair = member sg ''pair'',
                sig_action = member sg ''action'', sig_rsi = member sg ''rsi'',
                sig_macd = member sg ''macd'', sig_strength = member sg ''strength'',
                sig_quality = member sg ''quality'', sig_timestamp = n2\<rparr>"
  using assms by (simp add: new_signal_def bind_err_def get_prop_member)

text \<open>
  C8, as the code has it. A signal request with the correct API key whose body has no
  signal object (the member is missing or \<open>null\<close>) ends in the \<open>catch\<close>: the answer is
  500 \<open>Failed to process signal\<close> and the state is unchanged. Any other value of
  \<open>signal\<close> is accepted with 200: the signal stored and broadcast has the id and the
  timestamp of the clock readings and the six members read from the value, each of
  them \<open>undefined\<close> when the value has no such member. The handler has no 4xx answer
  for a malformed body.
\<close>

theorem missing_signal_is_500:
  assumes "get_prop reqbody ''apiKey'' = Inr apiKey"
    and "strict_eq apiKey (MT4_API_KEY env)"
    and "get_prop reqbody ''signal'' = Inr sg"
  shows "(sg = JUndefined \<or> sg = JNull \<longrightarrow>
            post_signals env now1 now2 reqbody st =
              (Response 500 (ErrorBody ''Failed to process signal''), st)) \<and>
         (sg \<noteq> JUndefined \<and> sg \<noteq> JNull \<longrightarrow>
            (let stored = \<lparr>sig_id = to_string now1, sig_pair = member sg ''pair'',
                            sig_action = member sg ''action'', sig_rsi = member sg ''rsi'',
                            sig_macd = member sg ''macd'', sig_strength = member sg ''strength'',
                            sig_quality = member sg ''quality'', sig_timestamp = now2\<rparr>
             in post_signals env now1 now2 reqbody st =
                  (Response 200 (SignalAccepted (to_string now1)),
                   broadcastSignal stored (st\<lparr>signals := push_signal stored (signals st)\<rparr>)) \<and>
                (\<forall>k. (\<forall>kvs. sg = JObj kvs \<longrightarrow> map_of kvs k = None) \<longrightarrow>
                     member sg k = JUndefined)))"
proof (intro conjI impI)
  assume "sg = JUndefined \<or> sg = JNull"
  then obtain e where "new_signal sg now1 now2 = Inl e"
    using new_signal_Inl [of sg now1 now2] by blast
  with assms show "post_signals env now1 now2 reqbody st =
              (Response 500 (ErrorBody ''Failed to process signal''), st)"
    by (simp add: post_signals_def bind_err_def signal_failed_def)
next
  assume a: "sg \<noteq> JUndefined \<and> sg \<noteq> JNull"
  then have s: "new_signal sg now1 now2 =
           Inr \<lparr>sig_id = to_string now1, sig_pair = member sg ''pair'',
                sig_action = member sg ''action'', sig_rsi = member sg ''rsi'',
                sig_macd = member sg ''macd'', sig_strength = member sg ''strength'',
                sig_quality = member sg ''quality'', sig_timestamp = now2\<rparr>"
    by (simp add: new_signal_members)
  have m: "member sg k = JUndefined" if "\<forall>kvs. sg = JObj kvs \<longrightarrow> map_of kvs k = None" for k
    using that by (cases sg) (simp_all add: member_def)
  from s assms m
  show "let stored = \<lparr>sig_id = to_string now1, sig_pair = member sg ''pair'',
                            sig_action = member sg ''action'', sig_rsi = member sg ''rsi'',
                            sig_macd = member sg ''macd'', sig_strength = member sg ''strength'',
                            sig_quality = member sg ''quality'', sig_timestamp = now2\<rparr>
             in post_signals env now1 now2 reqbody st =
                  (Response 200 (SignalAccepted (to_string now1)),
                   broadcastSignal stored (st\<lparr>signals := push_signal stored (signals st)\<rparr>)) \<and>
                (\<forall>k. (\<forall>kvs. sg = JObj kvs \<longrightarrow> map_of kvs k = None) \<longrightarrow>
                     member sg k = JUndefined)"
    by (simp add: post_signals_def bind_err_def Let_def)
qed

theorem missing_signal_is_500_witness:
  "get_prop keyed_body ''apiKey'' = Inr (JStr ''mt4-key'') \<and>
   strict_eq (JStr ''mt4-key'') (MT4_API_KEY example_env) \<and>
   get_prop keyed_body ''signal'' = Inr JUndefined \<and>
   post_signals example_env 40 41 keyed_body init_state =
     (Response 500 (ErrorBody ''Failed to process signal''), init_state) \<and>
   get_prop example_signal_body ''apiKey'' = Inr (JStr ''mt4-key'') \<and>
   get_prop example_signal_body ''signal'' =
     Inr (JObj [(''pair'', JStr ''XAUUSD''), (''action'', JStr ''BUY'')]) \<and>
   fst (post_signals example_env 40 41 example_signal_body init_state) =
     Response 200 (SignalAccepted ''40'') \<and>
   signals (snd (post_signals example_env 40 41 example_signal_body init_state)) =
     [\<lparr>sig_id = ''40'', sig_pair = JStr ''XAUUSD'', sig_action = JStr ''BUY'',
       sig_rsi = JUndefined, sig_macd = JUndefined, sig_strength = JUndefined,
       sig_quality = JUndefined, sig_timestamp = 41\<rparr>]"
proof -
  have a: "get_prop keyed_body ''apiKey'' = Inr (JStr ''mt4-key'')"
    and b: "strict_eq (JStr ''mt4-key'') (MT4_API_KEY example_env)"
    and c: "get_prop keyed_body ''signal'' = Inr JUndefined"
    by (simp_all add: keyed_body_def example_env_def strict_eq_def)
  have a': "get_prop example_signal_body ''apiKey'' = Inr (JStr ''mt4-key'')"
    and c': "get_prop example_signal_body ''signal'' =
      Inr (JObj [(''pair'', JStr ''XAUUSD''), (''action'', JStr ''BUY'')])"
    by (simp_all add: example_signal_body_def)
  have ts: "to_string 40 = ''40''"
    by (simp add: to_string_def digits.simps digit_char_def)
  from missing_signal_is_500 [OF a b c, of 40 41 init_state]
  have r1: "post_signals example_env 40 41 keyed_body init_state =
     (Response 500 (ErrorBody ''Failed to process signal''), init_state)"
    by simp
  from missing_signal_is_500 [OF a' b c', of 40 41 init_state]
  have r2: "post_signals example_env 40 41 example_signal_body init_state =
      (Response 200 (SignalAccepted ''40''),
       broadcastSignal
         \<lparr>sig_id = ''40'', sig_pair = JStr ''XAUUSD'', sig_action = JStr ''BUY'',
          sig_rsi = JUndefined, sig_macd = JUndefined, sig_strength = JUndefined,
          sig_quality = JUndefined, sig_timestamp = 41\<rparr>
         (init_state\<lparr>signals := push_signal
            \<lparr>sig_id = ''40'', sig_pair = JStr ''XAUUSD'', sig_action = JStr ''BUY'',
             sig_rsi = JUndefined, sig_macd = JUndefined, sig_strength = JUndefined,
             sig_quality = JUndefined, sig_timestamp = 41\<rparr> (signals init_state)\<rparr>))"
    by (simp add: Let_def member_def ts)
  from a b c a' c' r1 show ?thesis
    unfolding r2 by (simp add: push_signal_def init_state_def)
qed

text \<open>
  C8 as stated expects a 4xx for the request without its signal object; the answer is
  500.
\<close>

theorem malformed_signal_counterexample:
  "get_prop keyed_body ''apiKey'' = Inr (JStr ''mt4-key'') \<and>
   strict_eq (JStr ''mt4-key'') (MT4_API_KEY example_env) \<and>
   get_prop keyed_body ''signal'' = Inr JUndefined \<and>
   status (fst (post_signals example_env 40 41 keyed_body init_state)) = 500 \<and>
   \<not> (400 \<le> status (fst (post_signals example_env 40 41 keyed_body init_state)) \<and>
      status (fst (post_signals example_env 40 41 keyed_body init_state)) < 500)"
  by (simp add: keyed_body_def example_env_def strict_eq_def post_signals_def bind_err_def
        new_signal_def signal_failed_def)

section \<open>The login\<close>

lemma same_value_refl: "same_value k k"
  by (cases k) simp_all

lemma users_lookup_replace: "users_lookup k (users_replace k u us) = Some u"
  by (induction us) (auto simp: same_value_refl)

text \<open>A user stored under a primitive account number is the one the next login finds.\<close>

lemma users_get_set: "is_primitive k \<Longrightarrow> users_get k (users_set k u us) = Some u"
  by (simp add: users_get_def users_set_def users_lookup_replace)

lemma users_get_object: "\<not> is_primitive k \<Longrightarrow> users_get k us = None"
  by (simp add: users_get_def)

lemma login_begin_Inr:
  assumes "login_begin reqbody st0 = Inr p"
  shows "get_prop reqbody ''accountNumber'' = Inr (pl_accountNumber p) \<and>
         get_prop reqbody ''password'' = Inr (pl_password p) \<and>
         pl_user p = users_get (pl_accountNumber p) (users st0)"
  using assms
  by (auto simp: login_begin_def bind_err_def split: sum.splits)

text \<open>Two numerals that are one binary64 number are one key of the user store.\<close>

lemma users_get_rounds:
  "users_get (JNum 9007199254740992) [(JNum 9007199254740993, u)] = Some u"
proof -
  have "round64 9007199254740993 = round64 9007199254740992" by code_simp
  then show ?thesis by (simp add: users_get_def)
qed

text \<open>
  C9, as the code has it. With \<open>bcrypt.compare\<close> accepting a password against its own
  hash, and whatever the store has become while the handler awaited: a login whose
  account number was not in the user store when the handler read it (a number being
  the binary64 number it is) and whose password is a string creates the demo user with
  the hash of that password, which the next login of that (primitive) account number
  finds in the store, and answers 200 with a token for the account (500 when signing
  the token fails); when the password is not a string the answer is 500
  \<open>Login failed\<close> and no user is created; and a 401 is only answered for an account
  number that was in the store, with a stored hash that does not match the password
  sent.
\<close>

theorem login_creates_user:
  assumes law: "\<forall>s. bcrypt_compare env s (bcrypt_hash env s)"
    and start: "login_begin reqbody st0 = Inr p"
  shows "get_prop reqbody ''accountNumber'' = Inr (pl_accountNumber p) \<and>
         get_prop reqbody ''password'' = Inr (pl_password p) \<and>
         pl_user p = users_get (pl_accountNumber p) (users st0) \<and>
         (\<forall>s. pl_user p = None \<and> pl_password p = JStr s \<longrightarrow>
            (let created = \<lparr>user_accountNumber = pl_accountNumber p,
                             password = bcrypt_hash env s, user_broker = ''Demo'',
                             isDemo = True, createdAt = now\<rparr>
             in login_finish env t now p st =
                  (case JWT_sign env t
                          \<lparr>accountNumber = pl_accountNumber p, broker = JStr ''Demo''\<rparr> of
                     Some token \<Rightarrow> Response 200 (LoginBody token (pl_accountNumber p) ''Demo'')
                   | None \<Rightarrow> Response 500 (ErrorBody ''Login failed''),
                   st\<lparr>users := users_set (pl_accountNumber p) created (users st)\<rparr>) \<and>
                (is_primitive (pl_accountNumber p) \<longrightarrow>
                   users_get (pl_accountNumber p)
                     (users_set (pl_accountNumber p) created (users st)) = Some created))) \<and>
         (pl_user p = None \<and> \<not> (\<exists>s. pl_password p = JStr s) \<longrightarrow>
            login_finish env t now p st = (Response 500 (ErrorBody ''Login failed''), st)) \<and>
         (status (fst (login_finish env t now p st)) = 401 \<longrightarrow>
            (\<exists>u s. users_get (pl_accountNumber p) (users st0) = Some u \<and>
                   pl_password p = JStr s \<and> \<not> bcrypt_compare env s (password u)))"
proof (intro conjI impI allI)
  from login_begin_Inr [OF start]
  show "get_prop reqbody ''accountNumber'' = Inr (pl_accountNumber p)"
    and "get_prop reqbody ''password'' = Inr (pl_password p)"
    and "pl_user p = users_get (pl_accountNumber p) (users st0)"
    by simp_all
next
  fix s
  assume "pl_user p = None \<and> pl_password p = JStr s"
  then have n: "pl_user p = None" and s: "pl_password p = JStr s" by simp_all
  from law have ok: "bcrypt_compare env s (bcrypt_hash env s)" by blast
  have "login_finish env t now p st =
          (case JWT_sign env t \<lparr>accountNumber = pl_accountNumber p, broker = JStr ''Demo''\<rparr> of
             Some token \<Rightarrow> Response 200 (LoginBody token (pl_accountNumber p) ''Demo'')
           | None \<Rightarrow> Response 500 (ErrorBody ''Login failed''),
           st\<lparr>users := users_set (pl_accountNumber p)
                \<lparr>user_accountNumber = pl_accountNumber p, password = bcrypt_hash env s,
                 user_broker = ''Demo'', isDemo = True, createdAt = now\<rparr> (users st)\<rparr>)"
    using n s ok
    by (simp add: login_finish_def hash_password_def login_check_def
          compare_password_def login_failed_def Let_def split: option.splits)
  then show "let created = \<lparr>user_accountNumber = pl_accountNumber p,
                             password = bcrypt_hash env s, user_broker = ''Demo'',
                             isDemo = True, createdAt = now\<rparr>
             in login_finish env t now p st =
                  (case JWT_sign env t
                          \<lparr>accountNumber = pl_accountNumber p, broker = JStr ''Demo''\<rparr> of
                     Some token \<Rightarrow> Response 200 (LoginBody token (pl_accountNumber p) ''Demo'')
                   | None \<Rightarrow> Response 500 (ErrorBody ''Login failed''),
                   st\<lparr>users := users_set (pl_accountNumber p) created (users st)\<rparr>) \<and>
                (is_primitive (pl_accountNumber p) \<longrightarrow>
                   users_get (pl_accountNumber p)
                     (users_set (pl_accountNumber p) created (users st)) = Some created)"
    by (simp add: Let_def users_get_set)
next
  assume a: "pl_user p = None \<and> \<not> (\<exists>s. pl_password p = JStr s)"
  then have "hash_password env (pl_password p) = Inl IllegalArguments"
    by (cases "pl_password p") (simp_all add: hash_password_def)
  with a show "login_finish env t now p st = (Response 500 (ErrorBody ''Login failed''), st)"
    by (simp add: login_finish_def login_failed_def)
next
  assume r: "status (fst (login_finish env t now p st)) = 401"
  from login_begin_Inr [OF start]
  have u0: "pl_user p = users_get (pl_accountNumber p) (users st0)" by simp
  show "\<exists>u s. users_get (pl_accountNumber p) (users st0) = Some u \<and>
          pl_password p = JStr s \<and> \<not> bcrypt_compare env s (password u)"
  proof (cases "pl_user p")
    case None
    with r law show ?thesis
      by (cases "pl_password p")
        (auto simp: login_finish_def hash_password_def login_check_def
          compare_password_def login_failed_def Let_def split: option.splits if_splits)
  next
    case (Some u)
    with r u0 show ?thesis
      by (cases "pl_password p")
        (auto simp: login_finish_def login_check_def
          compare_password_def login_failed_def split: option.splits if_splits)
  qed
qed

theorem login_creates_user_witness:
  "(\<forall>s. bcrypt_compare example_env s (bcrypt_hash example_env s)) \<and>
   login_begin new_login init_state = Inr new_pending \<and>
   pl_user new_pending = None \<and> pl_password new_pending = JStr ''pw'' \<and>
   fst (login_finish example_env 0 7 new_pending init_state) =
     Response 200 (LoginBody ''jwt.A'' (JStr ''A'') ''Demo'') \<and>
   map fst (users (snd (login_finish example_env 0 7 new_pending init_state))) = [JStr ''A''] \<and>
   fst (login_finish example_env 0 9 new_pending
          (snd (login_finish example_env 0 7 new_pending init_state))) =
     Response 200 (LoginBody ''jwt.A'' (JStr ''A'') ''Demo'') \<and>
   login_begin wrong_login (snd (login_finish example_env 0 7 new_pending init_state)) =
     Inr (wrong_pending (snd (login_finish example_env 0 7 new_pending init_state))) \<and>
   fst (login_finish example_env 0 9
          (wrong_pending (snd (login_finish example_env 0 7 new_pending init_state)))
          (snd (login_finish example_env 0 7 new_pending init_state))) =
     Response 401 (ErrorBody ''Invalid credentials'')"
proof -
  have law: "\<forall>s. bcrypt_compare example_env s (bcrypt_hash example_env s)"
    by (simp add: example_env_def)
  have b: "login_begin new_login init_state = Inr new_pending"
    by (simp add: login_begin_def new_login_def new_pending_def bind_err_def users_get_def
          init_state_def)
  have n: "pl_user new_pending = None" and p: "pl_password new_pending = JStr ''pw''"
    and a: "pl_accountNumber new_pending = JStr ''A''"
    by (simp_all add: new_pending_def)
  have sg: "JWT_sign example_env 0 \<lparr>accountNumber = JStr ''A'', broker = JStr ''Demo''\<rparr> =
    Some ''jwt.A''"
    by (simp add: example_env_def)
  note created = login_creates_user [OF law b, THEN conjunct2, THEN conjunct2, THEN conjunct2,
      THEN conjunct1, rule_format, OF conjI [OF n p], unfolded Let_def]
  from created [of 0 7 init_state] a sg
  have first: "login_finish example_env 0 7 new_pending init_state =
      (Response 200 (LoginBody ''jwt.A'' (JStr ''A'') ''Demo''),
       init_state\<lparr>users := [(JStr ''A'',
          \<lparr>user_accountNumber = JStr ''A'', password = bcrypt_hash example_env ''pw'',
           user_broker = ''Demo'', isDemo = True, createdAt = 7\<rparr>)]\<rparr>)"
    by (simp add: users_set_def init_state_def)
  from created [of 0 9 "snd (login_finish example_env 0 7 new_pending init_state)"] a sg
  have second: "fst (login_finish example_env 0 9 new_pending
          (snd (login_finish example_env 0 7 new_pending init_state))) =
     Response 200 (LoginBody ''jwt.A'' (JStr ''A'') ''Demo'')"
    by simp
  have wb: "login_begin wrong_login (snd (login_finish example_env 0 7 new_pending init_state)) =
     Inr (wrong_pending (snd (login_finish example_env 0 7 new_pending init_state)))"
    by (simp add: login_begin_def wrong_login_def wrong_pending_def bind_err_def)
  have wf: "fst (login_finish example_env 0 9
          (wrong_pending (snd (login_finish example_env 0 7 new_pending init_state)))
          (snd (login_finish example_env 0 7 new_pending init_state))) =
     Response 401 (ErrorBody ''Invalid credentials'')"
    unfolding first
    by (simp add: wrong_pending_def users_get_def login_finish_def login_check_def
          compare_password_def example_env_def)
  from law b n p second wb wf show ?thesis
    unfolding first by simp
qed

text \<open>
  C9 as stated lets every login of an unknown account succeed; one whose password is a
  number is answered 500.
\<close>

theorem login_always_succeeds_counterexample:
  "login_begin numeric_login init_state = Inr numeric_pending \<and>
   pl_user numeric_pending = None \<and>
   users_get (JStr ''A'') (users init_state) = None \<and>
   login_finish example_env 0 7 numeric_pending init_state =
     (Response 500 (ErrorBody ''Login failed''), init_state)"
  by (simp add: numeric_login_def numeric_pending_def users_get_def init_state_def
        login_begin_def login_finish_def bind_err_def hash_password_def login_failed_def)

section \<open>Invariants of every run\<close>

text \<open>
  In every state the server reaches, the registry has one entry for a socket and a
  position is stored under its own id: the assumptions of C1 and C5 on the state.
\<close>

lemma on_connection_registry:
  "activeConnections (on_connection env t w token st) = activeConnections st \<or>
   (\<exists>d. activeConnections (on_connection env t w token st) =
          AList.update w d (activeConnections st))"
  by (auto simp: on_connection_def Let_def split: option.splits)

lemma ws_closed_registry_cases:
  "activeConnections (ws_closed w st) = activeConnections st \<or>
   activeConnections (ws_closed w st) = AList.delete w (activeConnections st)"
  by (simp add: ws_closed_def Let_def)

lemma step_distinct_registry:
  assumes "distinct (map fst (activeConnections st))"
  shows "distinct (map fst (activeConnections (step env ev st)))"
proof (cases ev)
  case (WsConnection t w token)
  from on_connection_registry [of env t w token
      "st\<lparr>sockets := (sockets st)(w := (sockets st w)\<lparr>readyState := OPEN\<rparr>)\<rparr>"]
  show ?thesis
    unfolding WsConnection step.simps ws_connect_def
    using assms by (auto simp: AList.distinct_update)
next
  case (WsClosed w)
  from ws_closed_registry_cases [of w st] show ?thesis
    unfolding WsClosed step.simps
    using assms by (auto simp: AList.distinct_delete)
next
  case (GetSignals t h clk)
  then show ?thesis
    using assms by (simp add: authenticated_invariant [where P = "\<lambda>s. distinct (map fst (activeConnections s))"])
next
  case (GetPositions t h)
  then show ?thesis
    using assms by (simp add: authenticated_invariant [where P = "\<lambda>s. distinct (map fst (activeConnections s))"])
next
  case (PostTradeOpen t h n1 n2 b)
  then show ?thesis
    using assms by (simp add: authenticated_invariant [where P = "\<lambda>s. distinct (map fst (activeConnections s))"])
next
  case (PostTradeClose t h pid)
  then show ?thesis
    using assms by (simp add: authenticated_invariant [where P = "\<lambda>s. distinct (map fst (activeConnections s))"])
qed (use assms in \<open>simp_all add: tick_def\<close>)

lemma run_distinct_registry:
  "distinct (map fst (activeConnections st)) \<Longrightarrow>
   distinct (map fst (activeConnections (run env evs st)))"
  by (induction evs arbitrary: st) (simp_all add: step_distinct_registry)

lemma reachable_distinct_registry:
  "distinct (map fst (activeConnections (run env evs init_state)))"
  by (rule run_distinct_registry) (simp add: init_state_def)

lemma step_positions_keyed:
  assumes "positions_keyed st"
  shows "positions_keyed (step env ev st)"
proof (cases ev)
  case (PostTradeOpen t h n1 n2 b)
  have "positions_keyed (snd (post_trade_open n1 n2 b u st))" for u
  proof -
    from post_trade_open_positions [of n1 n2 b u st]
    consider "positions (snd (post_trade_open n1 n2 b u st)) = positions st"
      | p where "pos_id p = to_string n1"
          "positions (snd (post_trade_open n1 n2 b u st)) =
             AList.update (to_string n1) p (positions st)"
      by blast
    then show ?thesis
      using assms by cases (simp_all add: positions_keyed_def keyed_update)
  qed
  with assms show ?thesis
    unfolding PostTradeOpen step.simps
    by (intro authenticated_invariant [where P = positions_keyed])
next
  case (PostTradeClose t h pid)
  have "positions_keyed (snd (post_trade_close pid u st))" for u
    using post_trade_close_positions [of pid u st] assms
    by (auto simp: positions_keyed_def keyed_delete)
  with assms show ?thesis
    unfolding PostTradeClose step.simps
    by (intro authenticated_invariant [where P = positions_keyed])
next
  case (GetSignals t h clk)
  with assms show ?thesis
    by (simp add: authenticated_invariant [where P = positions_keyed])
next
  case (GetPositions t h)
  with assms show ?thesis
    by (simp add: authenticated_invariant [where P = positions_keyed])
next
  case (Tick rnd)
  with assms show ?thesis by (simp add: tick_positions_keyed)
qed (use assms in \<open>simp_all add: positions_keyed_def\<close>)

lemma reachable_positions_keyed:
  "positions_keyed (run env evs init_state)"
proof -
  have "positions_keyed st \<Longrightarrow> positions_keyed (run env evs st)" for st
    by (induction evs arbitrary: st) (simp_all add: step_positions_keyed)
  then show ?thesis by (simp add: positions_keyed_def init_state_def)
qed

lemma printable_update:
  "list_all (\<lambda>(k, p). stringifiable (lots p)) al \<Longrightarrow> stringifiable (lots p) \<Longrightarrow>
   list_all (\<lambda>(k, p). stringifiable (lots p)) (AList.update k p al)"
  by (induction al) auto

lemma printable_delete:
  "list_all (\<lambda>(k, p). stringifiable (lots p)) al \<Longrightarrow>
   list_all (\<lambda>(k, p). stringifiable (lots p)) (AList.delete k al)"
  by (induction al) auto

lemma step_positions_printable:
  assumes "list_all (\<lambda>(k, p). stringifiable (lots p)) (positions st)"
  shows "list_all (\<lambda>(k, p). stringifiable (lots p)) (positions (step env ev st))"
proof (cases ev)
  case (PostTradeOpen t h n1 n2 b)
  have "list_all (\<lambda>(k, p). stringifiable (lots p)) (positions (snd (post_trade_open n1 n2 b u st)))"
    for u
  proof (cases "new_position b (accountNumber u) n1 n2")
    case (Inl e)
    with assms show ?thesis by (simp add: post_trade_open_def)
  next
    case (Inr p)
    from new_position_Inr [OF Inr] have "stringifiable (lots p)" by simp
    with Inr assms show ?thesis by (simp add: post_trade_open_def printable_update)
  qed
  with assms show ?thesis
    unfolding PostTradeOpen step.simps
    by (intro authenticated_invariant
          [where P = "\<lambda>s. list_all (\<lambda>(k, p). stringifiable (lots p)) (positions s)"])
next
  case (PostTradeClose t h pid)
  have "list_all (\<lambda>(k, p). stringifiable (lots p)) (positions (snd (post_trade_close pid u st)))"
    for u
    using post_trade_close_positions [of pid u st] assms
    by (auto simp: printable_delete)
  with assms show ?thesis
    unfolding PostTradeClose step.simps
    by (intro authenticated_invariant
          [where P = "\<lambda>s. list_all (\<lambda>(k, p). stringifiable (lots p)) (positions s)"])
next
  case (GetSignals t h clk)
  with assms show ?thesis
    by (simp add: authenticated_invariant
          [where P = "\<lambda>s. list_all (\<lambda>(k, p). stringifiable (lots p)) (positions s)"])
next
  case (GetPositions t h)
  with assms show ?thesis
    by (simp add: authenticated_invariant
          [where P = "\<lambda>s. list_all (\<lambda>(k, p). stringifiable (lots p)) (positions s)"])
next
  case (Tick rnd)
  with assms show ?thesis
    by (auto simp: list_all_length tick_positions case_prod_unfold)
qed (use assms in simp_all)

text \<open>
  Every position of the mapping has passed the log line of the open request, so the
  ticker's conversion of its \<open>lots\<close> to a number does not throw.
\<close>

lemma reachable_positions_printable:
  "list_all (\<lambda>(k, p). stringifiable (lots p)) (positions (run env evs init_state))"
proof -
  have "list_all (\<lambda>(k, p). stringifiable (lots p)) (positions st) \<Longrightarrow>
        list_all (\<lambda>(k, p). stringifiable (lots p)) (positions (run env evs st))" for st
    by (induction evs arbitrary: st) (simp_all add: step_positions_printable)
  then show ?thesis by (simp add: init_state_def)
qed

end
